theory Spec2Isabelle
  imports Main
begin

section \<open>Python string and integer primitives\<close>

text \<open>
  The scripts under \<open>src/tools\<close> work on Python strings and unbounded integers.
  Strings are modelled as \<open>string\<close> and stand for ASCII text: the character classes
  \<open>\s\<close>, \<open>\d\<close> and \<open>\w\<close> are the ASCII ones (Python's further Unicode members of
  these classes are outside the model). Integers are \<open>int\<close>; Python's floor division
  and modulo by a positive constant are \<open>div\<close> and \<open>mod\<close>. The interpreter's limit on
  the number of digits of an integer literal is not modelled.
\<close>

datatype py_error = ValueError | KeyError | OSError | IndexError | UnboundLocalError

text \<open>
  The character classes, each given by the list of its members: Python's ASCII
  whitespace (tab to carriage return, the four separators \<open>0x1C\<close> to \<open>0x1F\<close>, the blank)
  and the decimal digits.
\<close>

definition SPACES :: string where
  "SPACES = [CHR 0x09, CHR 0x0A, CHR 0x0B, CHR 0x0C, CHR 0x0D,
             CHR 0x1C, CHR 0x1D, CHR 0x1E, CHR 0x1F, CHR '' '']"

definition is_space :: "char \<Rightarrow> bool" where
  "is_space c = (c \<in> set SPACES)"

definition is_digit :: "char \<Rightarrow> bool" where
  "is_digit c = (c \<in> set ''0123456789'')"

text \<open>The class \<open>[0-5]\<close> of the time patterns.\<close>

definition is_digit05 :: "char \<Rightarrow> bool" where
  "is_digit05 c = (c \<in> set ''012345'')"

definition digit_val :: "char \<Rightarrow> nat" where
  "digit_val c =
     (case map_of (zip ''0123456789'' [0, 1, 2, 3, 4, 5, 6, 7, 8, 9]) c of
        Some d \<Rightarrow> d
      | None \<Rightarrow> 0)"

definition digit_char :: "nat \<Rightarrow> char" where
  "digit_char d = ''0123456789'' ! d"

text \<open>
  \<open>str.strip()\<close>: whitespace removed at both ends. \<open>int()\<close> ignores a narrower
  class at both ends (tab to carriage return, and the blank).
\<close>

definition strip_with :: "(char \<Rightarrow> bool) \<Rightarrow> string \<Rightarrow> string" where
  "strip_with p s = rev (dropWhile p (rev (dropWhile p s)))"

definition py_strip :: "string \<Rightarrow> string" where
  "py_strip s = strip_with is_space s"

definition is_c_space :: "char \<Rightarrow> bool" where
  "is_c_space c = (c \<in> set [CHR 0x09, CHR 0x0A, CHR 0x0B, CHR 0x0C, CHR 0x0D, CHR '' ''])"

text \<open>\<open>str.split(sep)\<close> for a one-character separator: never an empty list.\<close>

fun split_on :: "char \<Rightarrow> string \<Rightarrow> string list" where
  "split_on c [] = [[]]"
| "split_on c (x # xs) =
     (if x = c then [] # split_on c xs
      else (case split_on c xs of
              p # ps \<Rightarrow> (x # p) # ps
            | [] \<Rightarrow> [[x]]))"

text \<open>Decimal digits of a natural number, and the value of a digit string.\<close>

fun digits_of :: "nat \<Rightarrow> string" where
  "digits_of n =
     (if n < 10 then [digit_char n]
      else digits_of (n div 10) @ [digit_char (n mod 10)])"

declare digits_of.simps [simp del]

definition digits_value :: "string \<Rightarrow> nat" where
  "digits_value s = foldl (\<lambda>a c. 10 * a + digit_val c) 0 s"

text \<open>\<open>str(n)\<close> and the format \<open>{n:02d}\<close> (zero padded to width two, sign included).\<close>

definition py_str :: "int \<Rightarrow> string" where
  "py_str n = (if n < 0 then CHR ''-'' # digits_of (nat (- n)) else digits_of (nat n))"

definition fmt02 :: "int \<Rightarrow> string" where
  "fmt02 n =
     (if n < 0 then py_str n
      else if n < 10 then CHR ''0'' # digits_of (nat n)
      else digits_of (nat n))"

text \<open>
  \<open>int(s)\<close> in base ten: surrounding whitespace is ignored, one sign is allowed, and the
  digits may be grouped by single underscores. \<open>None\<close> stands for \<open>ValueError\<close>.
\<close>

fun int_body_ok :: "string \<Rightarrow> bool" where
  "int_body_ok [] = False"
| "int_body_ok [c] = is_digit c"
| "int_body_ok (c # d # r) =
     (is_digit c \<and> (if d = CHR ''_'' then int_body_ok r else int_body_ok (d # r)))"

definition int_unsigned :: "string \<Rightarrow> int option" where
  "int_unsigned body =
     (if int_body_ok body
      then Some (int (digits_value (filter (\<lambda>c. c \<noteq> CHR ''_'') body)))
      else None)"

definition py_int :: "string \<Rightarrow> int option" where
  "py_int s =
     (case strip_with is_c_space s of
        [] \<Rightarrow> None
      | c # r \<Rightarrow>
          if c = CHR ''-'' then map_option uminus (int_unsigned r)
          else if c = CHR ''+'' then int_unsigned r
          else int_unsigned (c # r))"

text \<open>The common rendering \<open>f"{h}:{m:02d}:{s:02d}"\<close>.\<close>

definition fmt_hms :: "int \<Rightarrow> int \<Rightarrow> int \<Rightarrow> string" where
  "fmt_hms h m s = py_str h @ CHR '':'' # fmt02 m @ CHR '':'' # fmt02 s"

section \<open>The time patterns\<close>

text \<open>
  All three scripts share the prefix \<open>^(?:(\d+):)?([0-5]?\d):([0-5]\d)\<close>.
  \<open>time_core\<close> matches it at the start of a string and returns the three groups and
  the rest of the string. A digit run is always taken whole, because the pattern asks
  for a colon right after it; and when the alternative with the hours group matches,
  the one without cannot, so the order of the two attempts does not matter.
\<close>

definition mm_ok :: "string \<Rightarrow> bool" where
  "mm_ok d = (case d of
       [a] \<Rightarrow> is_digit a
     | [a, b] \<Rightarrow> is_digit05 a \<and> is_digit b
     | _ \<Rightarrow> False)"

definition ss_take :: "string \<Rightarrow> (string \<times> string) option" where
  "ss_take r = (case r of
       a # b # rest \<Rightarrow>
         if is_digit05 a \<and> is_digit b then Some ([a, b], rest) else None
     | _ \<Rightarrow> None)"

definition mmss_take :: "string \<Rightarrow> (string \<times> string \<times> string) option" where
  "mmss_take r =
     (let d = takeWhile is_digit r in
      if mm_ok d then
        (case dropWhile is_digit r of
           c # r' \<Rightarrow>
             if c = CHR '':'' then
               (case ss_take r' of
                  Some (g3, rest) \<Rightarrow> Some (d, g3, rest)
                | None \<Rightarrow> None)
             else None
         | [] \<Rightarrow> None)
      else None)"

definition time_core :: "string \<Rightarrow> (string option \<times> string \<times> string \<times> string) option" where
  "time_core s =
     (let with_hours =
        (if takeWhile is_digit s \<noteq> [] then
           (case dropWhile is_digit s of
              c # r \<Rightarrow>
                if c = CHR '':'' then
                  (case mmss_take r of
                     Some (g2, g3, rest) \<Rightarrow> Some (Some (takeWhile is_digit s), g2, g3, rest)
                   | None \<Rightarrow> None)
                else None
            | [] \<Rightarrow> None)
         else None)
      in case with_hours of
           Some res \<Rightarrow> Some res
         | None \<Rightarrow>
             (case mmss_take s of
                Some (g2, g3, rest) \<Rightarrow> Some (None, g2, g3, rest)
              | None \<Rightarrow> None))"

text \<open>\<open>$\<close> matches at the end of the string and before a final newline.\<close>

definition at_dollar :: "string \<Rightarrow> bool" where
  "at_dollar rest = (rest = [] \<or> rest = [CHR 0x0A])"

text \<open>
  \<open>DURATION_CLEAN_RE\<close> of \<open>fix_timestamps.py\<close>, which is also \<open>DURATION_RE\<close> of
  \<open>audit_timestamps_enhanced.py\<close> and \<open>TIME_RE\<close> of \<open>audit_timestamps.py\<close>:
  \<open>^(?:(\d+):)?([0-5]?\d):([0-5]\d)$\<close>.
\<close>

definition DURATION_CLEAN_RE :: "string \<Rightarrow> (string option \<times> string \<times> string) option" where
  "DURATION_CLEAN_RE s =
     (case time_core s of
        Some (g1, g2, g3, rest) \<Rightarrow> if at_dollar rest then Some (g1, g2, g3) else None
      | None \<Rightarrow> None)"

text \<open>
  \<open>TIME_RE\<close> of \<open>audit_timestamps_enhanced.py\<close>:
  \<open>^(?:(\d+):)?([0-5]?\d):([0-5]\d)(?:\s+\(.+\))?$\<close>. The optional tail is
  whitespace, an opening parenthesis, at least one character other than a newline, and a
  closing parenthesis at the end.
\<close>

definition annotation_tail :: "string \<Rightarrow> bool" where
  "annotation_tail rest =
     (takeWhile is_space rest \<noteq> [] \<and>
      (case dropWhile is_space rest of
         c # body \<Rightarrow>
           c = CHR ''('' \<and>
           (let b = (if body \<noteq> [] \<and> last body = CHR 0x0A then butlast body else body) in
            b \<noteq> [] \<and> last b = CHR '')'' \<and> butlast b \<noteq> [] \<and> CHR 0x0A \<notin> set (butlast b))
       | [] \<Rightarrow> False))"

definition TIME_RE_annot :: "string \<Rightarrow> (string option \<times> string \<times> string) option" where
  "TIME_RE_annot s =
     (case time_core s of
        Some (g1, g2, g3, rest) \<Rightarrow>
          if at_dollar rest \<or> annotation_tail rest then Some (g1, g2, g3) else None
      | None \<Rightarrow> None)"

text \<open>Seconds from the three groups: \<open>int(g1 or 0) * 3600 + int(g2) * 60 + int(g3)\<close>.\<close>

definition group_hours :: "string option \<Rightarrow> int" where
  "group_hours g1 = (case g1 of None \<Rightarrow> 0 | Some d \<Rightarrow> int (digits_value d))"

section \<open>fix\_timestamps.py: normalize\_time and to\_seconds\<close>

definition fix_clean :: "string \<Rightarrow> string" where
  "fix_clean time_str = py_strip (takeWhile (\<lambda>c. c \<noteq> CHR ''('') (py_strip time_str))"

definition fix_normalize_time :: "string \<Rightarrow> string \<times> bool" where
  "fix_normalize_time time_str =
     (let clean = fix_clean time_str in
      case DURATION_CLEAN_RE clean of
        None \<Rightarrow>
          (case split_on CHR '':'' clean of
             [p0, p1] \<Rightarrow>
               (case (py_int p0, py_int p1) of
                  (Some minutes, Some seconds) \<Rightarrow>
                    (fmt_hms (minutes div 60) (minutes mod 60) seconds, True)
                | _ \<Rightarrow> (time_str, False))
           | _ \<Rightarrow> (time_str, False))
      | Some (g1, g2, g3) \<Rightarrow>
          (let h = group_hours g1;
               m = int (digits_value g2);
               s = int (digits_value g3);
               h' = (if m \<ge> 60 then h + m div 60 else h);
               m' = (if m \<ge> 60 then m mod 60 else m);
               normalized = fmt_hms h' m' s
           in (normalized, normalized \<noteq> clean)))"

definition fix_to_seconds :: "string \<Rightarrow> int option" where
  "fix_to_seconds time_str =
     (case split_on CHR '':'' (fst (fix_normalize_time time_str)) of
        [a, b, c] \<Rightarrow>
          (case (py_int a, py_int b, py_int c) of
             (Some h, Some m, Some s) \<Rightarrow> Some (h * 3600 + m * 60 + s)
           | _ \<Rightarrow> None)
      | _ \<Rightarrow> None)"

section \<open>fix\_timestamps\_enhanced.py: normalize\_time, time\_to\_seconds, seconds\_to\_time\<close>

text \<open>
  \<open>re.sub(r'\s*\([^)]+\)', '', s)\<close>: \<open>paren_match\<close> matches the pattern at the start
  of a string and returns what follows the match; \<open>sub_parens\<close> scans from the left,
  removing every match.
\<close>

definition paren_match :: "string \<Rightarrow> string option" where
  "paren_match s =
     (case dropWhile is_space s of
        c # r \<Rightarrow>
          if c = CHR ''('' \<and> takeWhile (\<lambda>x. x \<noteq> CHR '')'') r \<noteq> []
             \<and> dropWhile (\<lambda>x. x \<noteq> CHR '')'') r \<noteq> []
          then Some (tl (dropWhile (\<lambda>x. x \<noteq> CHR '')'') r))
          else None
      | [] \<Rightarrow> None)"

lemma paren_match_shorter: "paren_match s = Some r \<Longrightarrow> length r < length s"
proof -
  assume a: "paren_match s = Some r"
  then obtain c r0 where d: "dropWhile is_space s = c # r0"
    by (auto simp: paren_match_def split: list.splits)
  from a d have r: "r = tl (dropWhile (\<lambda>x. x \<noteq> CHR '')'') r0)"
    by (auto simp: paren_match_def split: if_splits)
  have "length r \<le> length r0"
    using r length_dropWhile_le [of "\<lambda>x. x \<noteq> CHR '')''" r0] by simp
  moreover have "length (c # r0) \<le> length s"
    using d length_dropWhile_le [of is_space s] by simp
  ultimately show ?thesis by simp
qed

function sub_parens :: "string \<Rightarrow> string" where
  "sub_parens [] = []"
| "sub_parens (c # cs) =
     (case paren_match (c # cs) of
        Some rest \<Rightarrow> sub_parens rest
      | None \<Rightarrow> c # sub_parens cs)"
  by pat_completeness auto
termination
  by (relation "measure length") (auto dest: paren_match_shorter)

definition enh_normalize_time :: "string \<Rightarrow> py_error + string" where
  "enh_normalize_time time_str =
     (let clean = sub_parens (py_strip time_str) in
      case split_on CHR '':'' clean of
        [p0, p1] \<Rightarrow>
          (case (py_int p0, py_int p1) of
             (Some minutes, Some seconds) \<Rightarrow>
               Inr (fmt_hms (minutes div 60) (minutes mod 60) seconds)
           | _ \<Rightarrow> Inl ValueError)
      | [p0, p1, p2] \<Rightarrow>
          (case (py_int p0, py_int p1, py_int p2) of
             (Some hours, Some minutes, Some seconds) \<Rightarrow>
               (let minutes1 = minutes + seconds div 60;
                    seconds1 = seconds mod 60;
                    hours1 = hours + minutes1 div 60;
                    minutes2 = minutes1 mod 60
                in Inr (fmt_hms hours1 minutes2 seconds1))
           | _ \<Rightarrow> Inl ValueError)
      | _ \<Rightarrow> Inr time_str)"

definition enh_time_to_seconds :: "string \<Rightarrow> py_error + int" where
  "enh_time_to_seconds time_str =
     (case enh_normalize_time time_str of
        Inl e \<Rightarrow> Inl e
      | Inr normalized \<Rightarrow>
          (case split_on CHR '':'' normalized of
             [a, b, c] \<Rightarrow>
               (case (py_int a, py_int b, py_int c) of
                  (Some h, Some m, Some s) \<Rightarrow> Inr (h * 3600 + m * 60 + s)
                | _ \<Rightarrow> Inl ValueError)
           | _ \<Rightarrow> Inr 0))"

definition seconds_to_time :: "int \<Rightarrow> string" where
  "seconds_to_time seconds =
     fmt_hms (seconds div 3600) ((seconds mod 3600) div 60) (seconds mod 60)"

section \<open>Text utilities\<close>

definition UPPERS :: string where "UPPERS = ''ABCDEFGHIJKLMNOPQRSTUVWXYZ''"
definition LOWERS :: string where "LOWERS = ''abcdefghijklmnopqrstuvwxyz''"

definition is_upper :: "char \<Rightarrow> bool" where
  "is_upper c = (c \<in> set UPPERS)"

definition is_lower :: "char \<Rightarrow> bool" where
  "is_lower c = (c \<in> set LOWERS)"

definition lower_char :: "char \<Rightarrow> char" where
  "lower_char c = (case map_of (zip UPPERS LOWERS) c of Some d \<Rightarrow> d | None \<Rightarrow> c)"

definition upper_char :: "char \<Rightarrow> char" where
  "upper_char c = (case map_of (zip LOWERS UPPERS) c of Some d \<Rightarrow> d | None \<Rightarrow> c)"

definition py_lower :: "string \<Rightarrow> string" where
  "py_lower s = map lower_char s"

definition is_alnum :: "char \<Rightarrow> bool" where
  "is_alnum c = (is_digit c \<or> is_upper c \<or> is_lower c)"

definition is_word_char :: "char \<Rightarrow> bool" where
  "is_word_char c = (is_alnum c \<or> c = CHR ''_'')"

text \<open>The maximal runs of characters that satisfy \<open>p\<close>, from left to right.\<close>

fun runs_acc :: "(char \<Rightarrow> bool) \<Rightarrow> string \<Rightarrow> string \<Rightarrow> string list" where
  "runs_acc p cur [] = (if cur = [] then [] else [cur])"
| "runs_acc p cur (c # cs) =
     (if p c then runs_acc p (cur @ [c]) cs
      else (if cur = [] then [] else [cur]) @ runs_acc p [] cs)"

definition runs :: "(char \<Rightarrow> bool) \<Rightarrow> string \<Rightarrow> string list" where
  "runs p s = runs_acc p [] s"

text \<open>
  \<open>extract_words\<close> of \<open>fix_timestamps.py\<close> and of \<open>audit_timestamps_enhanced.py\<close>:
  \<open>re.findall(r'\b[a-zA-Z0-9]+\b', text.lower())\<close>. A match is a maximal run of
  letters and digits with a word boundary on both sides; an underscore is a word
  character, so a run that touches an underscore has no boundary there and is not
  matched. The matches are therefore the maximal runs of word characters that contain
  no underscore.
\<close>

definition extract_words :: "string \<Rightarrow> string list" where
  "extract_words text =
     filter (\<lambda>w. CHR ''_'' \<notin> set w) (runs is_word_char (py_lower text))"

definition word_count :: "string \<Rightarrow> nat" where
  "word_count text = length (extract_words text)"

text \<open>\<open>words\<close> of \<open>audit_timestamps.py\<close>: \<open>re.findall(r"[A-Za-z0-9_]+", s.lower())\<close>.\<close>

definition audit_words :: "string \<Rightarrow> string list" where
  "audit_words s = runs is_word_char (py_lower s)"

definition audit_word_count :: "string \<Rightarrow> nat" where
  "audit_word_count s = length (audit_words s)"

text \<open>\<open>str.split()\<close> without argument: the maximal runs of non-whitespace.\<close>

definition py_split_ws :: "string \<Rightarrow> string list" where
  "py_split_ws s = runs (\<lambda>c. \<not> is_space c) s"

text \<open>\<open>sub in s\<close> on strings, and \<open>sep.join(parts)\<close>.\<close>

fun contains :: "string \<Rightarrow> string \<Rightarrow> bool" where
  "contains sub [] = (sub = [])"
| "contains sub (c # cs) = (take (length sub) (c # cs) = sub \<or> contains sub cs)"

fun py_join :: "string \<Rightarrow> string list \<Rightarrow> string" where
  "py_join sep [] = []"
| "py_join sep [p] = p"
| "py_join sep (p # q # ps) = p @ sep @ py_join sep (q # ps)"

text \<open>
  \<open>str.title()\<close>: a letter is upper-cased when the character before it is not a letter,
  and lower-cased otherwise. The flag says whether the previous character was a letter.
\<close>

fun title_acc :: "bool \<Rightarrow> string \<Rightarrow> string" where
  "title_acc prev [] = []"
| "title_acc prev (c # cs) =
     (if is_lower c then (if prev then c else upper_char c) # title_acc True cs
      else if is_upper c then (if prev then lower_char c else c) # title_acc True cs
      else c # title_acc False cs)"

definition py_title :: "string \<Rightarrow> string" where
  "py_title s = title_acc False s"

text \<open>
  Sizes of word sets: \<open>len(set(a) & set(b))\<close> and \<open>len(set(b))\<close>. The ratio of the two
  is compared with \<open>0.7\<close> in floating point; for word sets of realistic size (below
  \<open>2^50\<close> elements) the outcome is that of the exact comparison of \<open>10 * a\<close> with
  \<open>7 * b\<close>, which the model uses.
\<close>

definition common_count :: "string list \<Rightarrow> string list \<Rightarrow> nat" where
  "common_count a b = length (remdups (filter (\<lambda>w. w \<in> set b) a))"

definition distinct_count :: "string list \<Rightarrow> nat" where
  "distinct_count b = length (remdups b)"

section \<open>The course document\<close>

text \<open>
  A timestamp entry has a time, a label and a description. The scripts read the time
  and the label only through \<open>.get(key, "")\<close>, so a missing key reads as the empty
  string; the description is also read by index, which raises \<open>KeyError\<close> when the key is
  missing, so it is optional in the model.
\<close>

record timestamp =
  ts_time :: string
  ts_label :: string
  ts_description :: "string option"

definition get_description :: "timestamp \<Rightarrow> string" where
  "get_description ts = (case ts_description ts of None \<Rightarrow> [] | Some d \<Rightarrow> d)"

record lesson =
  lesson_id :: string
  title :: string
  duration :: string
  content :: string
  timestamps :: "timestamp list"

record week =
  week_id :: string
  lessons :: "lesson list"

type_synonym course = "week list"

section \<open>Label and description heuristics\<close>

text \<open>\<open>GENERIC_LABELS\<close> of \<open>fix_timestamps.py\<close> and of \<open>audit_timestamps_enhanced.py\<close>.\<close>

definition GENERIC_LABELS :: "string list" where
  "GENERIC_LABELS =
     [''overview'', ''discussion'', ''recap'', ''intro'', ''general'', ''introduction'', ''review'']"

text \<open>\<open>GENERIC_LABELS\<close> of \<open>audit_timestamps.py\<close>.\<close>

definition AUDIT_GENERIC_LABELS :: "string list" where
  "AUDIT_GENERIC_LABELS = [''overview'', ''discussion'', ''recap'', ''intro'', ''general'']"

text \<open>\<open>GENERIC_TERMS\<close> of \<open>fix_timestamps_enhanced.py\<close>.\<close>

definition GENERIC_TERMS :: "string list" where
  "GENERIC_TERMS =
     [''overview'', ''introduction'', ''discussion'', ''recap'', ''general'',
      ''review'', ''summary'', ''basics'', ''fundamentals'', ''concepts'']"

subsection \<open>fix\_timestamps.py\<close>

definition is_weak_label :: "string \<Rightarrow> bool" where
  "is_weak_label label =
     (if label = [] then True
      else let wc = word_count label in
        if wc < 2 \<or> wc > 5 then True
        else let words = extract_words label in
          if \<forall>w \<in> set words. w \<in> set GENERIC_LABELS then True
          else False)"

definition is_weak_description :: "string \<Rightarrow> string \<Rightarrow> bool" where
  "is_weak_description desc label =
     (if desc = [] then True
      else let wc = word_count desc in
        if wc < 5 \<or> wc > 15 then True
        else let label_words = extract_words label; desc_words = extract_words desc in
          if label_words \<noteq> [] \<and> desc_words \<noteq> []
             \<and> 10 * common_count label_words desc_words > 7 * distinct_count desc_words
          then True
          else False)"

subsection \<open>audit\_timestamps\_enhanced.py\<close>

definition check_label_quality :: "string \<Rightarrow> bool" where
  "check_label_quality label =
     (if label = [] then False
      else let wc = word_count label in
        if wc < 2 \<or> wc > 5 then False
        else let words = extract_words label in
          if distinct_count words = 1 \<and> (\<forall>w \<in> set words. w \<in> set GENERIC_LABELS) then False
          else True)"

definition check_description_quality :: "string \<Rightarrow> string \<Rightarrow> bool" where
  "check_description_quality desc label =
     (if desc = [] then False
      else let wc = word_count desc in
        if wc < 5 \<or> wc > 15 then False
        else let label_words = extract_words label; desc_words = extract_words desc in
          if label_words \<noteq> [] \<and> desc_words \<noteq> []
             \<and> 10 * common_count label_words desc_words > 7 * distinct_count desc_words
          then False
          else True)"

subsection \<open>audit\_timestamps.py\<close>

text \<open>The thresholds are command-line arguments with these defaults.\<close>

record audit_config =
  max_gap_s :: int
  min_sep_s :: int
  label_min :: int
  label_max :: int
  desc_min :: int
  desc_max :: int

definition default_config :: audit_config where
  "default_config =
     \<lparr>max_gap_s = 900, min_sep_s = 8, label_min = 2, label_max = 5, desc_min = 5, desc_max = 15\<rparr>"

definition audit_label_vague :: "audit_config \<Rightarrow> timestamp \<Rightarrow> bool" where
  "audit_label_vague args t =
     (let label = py_strip (ts_label t);
          tokens = audit_words label;
          lw = int (length tokens);
          is_generic = (\<exists>g \<in> set AUDIT_GENERIC_LABELS. g \<in> set tokens)
      in lw < label_min args \<or> lw > label_max args \<or> is_generic)"

definition audit_desc_weak :: "audit_config \<Rightarrow> timestamp \<Rightarrow> bool" where
  "audit_desc_weak args t =
     (let label = py_strip (ts_label t);
          desc = py_strip (get_description t);
          ltoks = audit_words label;
          dtoks = audit_words desc;
          dw = int (length dtoks);
          overlap_high =
            (dtoks \<noteq> [] \<and> 10 * common_count ltoks dtoks \<ge> 7 * max 1 (distinct_count dtoks))
      in dw < desc_min args \<or> dw > desc_max args \<or> overlap_high)"

subsection \<open>fix\_timestamps\_enhanced.py\<close>

definition needs_label_rewrite :: "string list \<Rightarrow> string \<Rightarrow> bool" where
  "needs_label_rewrite existing_labels original_label =
     (length (py_split_ws original_label) < 2
      \<or> length (py_split_ws original_label) > 5
      \<or> (\<exists>term \<in> set GENERIC_TERMS. contains term (py_lower original_label))
      \<or> original_label \<in> set existing_labels
      \<or> original_label = ''TO_REVIEW'')"

definition needs_desc_rewrite :: "string \<Rightarrow> string \<Rightarrow> bool" where
  "needs_desc_rewrite original_desc original_label =
     (length (py_split_ws original_desc) < 5
      \<or> length (py_split_ws original_desc) > 15
      \<or> py_lower original_desc = py_lower original_label
      \<or> (contains ''overview'' (py_lower original_desc) \<and> length (py_split_ws original_desc) < 8))"

section \<open>audit\_timestamps\_enhanced.py: audit\_lesson\<close>

definition MIN_SEP_S :: int where "MIN_SEP_S = 8"
definition MAX_GAP_S :: int where "MAX_GAP_S = 900"

definition groups_seconds :: "string option \<times> string \<times> string \<Rightarrow> int" where
  "groups_seconds g =
     (case g of (g1, g2, g3) \<Rightarrow>
        group_hours g1 * 3600 + int (digits_value g2) * 60 + int (digits_value g3))"

definition enh_audit_to_seconds :: "string \<Rightarrow> int option" where
  "enh_audit_to_seconds time_str = map_option groups_seconds (TIME_RE_annot (py_strip time_str))"

definition is_clean_duration :: "string \<Rightarrow> bool" where
  "is_clean_duration duration_str = (DURATION_CLEAN_RE (py_strip duration_str) \<noteq> None)"

text \<open>Consecutive pairs of a list: \<open>(xs[i-1], xs[i])\<close> for \<open>i\<close> from 1.\<close>

definition adjacent :: "'a list \<Rightarrow> ('a \<times> 'a) list" where
  "adjacent xs = zip xs (tl xs)"

record audit_result =
  ar_duration_ok :: bool
  ar_format :: "string list"
  ar_out_of_range :: "string list"
  ar_non_monotonic :: "string list"
  ar_density :: "(string \<times> string) list"
  ar_coverage_gaps :: "(string \<times> string \<times> int) list"
  ar_vague_labels :: "string list"
  ar_weak_descriptions :: "string list"
  ar_timestamps_pass :: bool
  ar_summaries_pass :: bool
  ar_overall :: string
  ar_actions :: "string list"

text \<open>
  The entries that parse, with their seconds value: the list \<open>times_s\<close> of the source.
  An entry that does not parse goes to the format list and is skipped by the range and
  quality checks of the same loop iteration.
\<close>

definition enh_times_s :: "timestamp list \<Rightarrow> (int \<times> timestamp) list" where
  "enh_times_s tss =
     List.map_filter (\<lambda>ts. map_option (\<lambda>s. (s, ts)) (enh_audit_to_seconds (ts_time ts))) tss"

definition audit_lesson :: "lesson \<Rightarrow> audit_result" where
  "audit_lesson l =
     (let duration_ok = is_clean_duration (duration l);
          duration_s = (if duration_ok then enh_audit_to_seconds (duration l) else None);
          times_s = enh_times_s (timestamps l);
          fmt = map ts_time
                  (filter (\<lambda>ts. enh_audit_to_seconds (ts_time ts) = None) (timestamps l));
          out_of_range =
            map (\<lambda>(s, ts). ts_time ts)
              (filter (\<lambda>(s, ts). case duration_s of
                                   None \<Rightarrow> False
                                 | Some d \<Rightarrow> d \<noteq> 0 \<and> (s < 0 \<or> s > d)) times_s);
          vague = map (\<lambda>(s, ts). ts_time ts)
                    (filter (\<lambda>(s, ts). \<not> check_label_quality (ts_label ts)) times_s);
          weak = map (\<lambda>(s, ts). ts_time ts)
                   (filter (\<lambda>(s, ts). \<not> check_description_quality (get_description ts) (ts_label ts))
                      times_s);
          non_monotonic =
            map (\<lambda>(a, b). ts_time (snd b))
              (filter (\<lambda>(a, b). fst b < fst a) (adjacent times_s));
          density =
            map (\<lambda>(a, b). (ts_time (snd a), ts_time (snd b)))
              (filter (\<lambda>(a, b). fst b - fst a < MIN_SEP_S) (adjacent times_s));
          coverage_gaps =
            (if length times_s > 1
             then map (\<lambda>(a, b). (ts_time (snd a), ts_time (snd b), fst b - fst a))
                    (filter (\<lambda>(a, b). fst b - fst a > MAX_GAP_S) (adjacent times_s))
             else []);
          timestamps_pass =
            (duration_ok \<and> fmt = [] \<and> out_of_range = [] \<and> non_monotonic = []
             \<and> density = [] \<and> coverage_gaps = []);
          summaries_pass = (vague = [] \<and> weak = []);
          actions =
            (if \<not> duration_ok then [''fix_duration''] else [])
            @ (if out_of_range \<noteq> [] then [''fix_range''] else [])
            @ (if non_monotonic \<noteq> [] then [''fix_order''] else [])
            @ (if coverage_gaps \<noteq> [] then [''fix_coverage''] else [])
            @ (if density \<noteq> [] then [''fix_density''] else [])
            @ (if \<not> summaries_pass then [''rewrite_summaries''] else [])
      in \<lparr>ar_duration_ok = duration_ok, ar_format = fmt, ar_out_of_range = out_of_range,
          ar_non_monotonic = non_monotonic, ar_density = density,
          ar_coverage_gaps = coverage_gaps, ar_vague_labels = vague,
          ar_weak_descriptions = weak, ar_timestamps_pass = timestamps_pass,
          ar_summaries_pass = summaries_pass,
          ar_overall = (if timestamps_pass \<and> summaries_pass then ''pass'' else ''needs_fixes''),
          ar_actions = actions\<rparr>)"

text \<open>
  The checks of the audit, stated on the lesson itself. \<open>lesson_seconds\<close> are the
  seconds values of the entries that parse, in list order.
\<close>

definition lesson_seconds :: "lesson \<Rightarrow> int list" where
  "lesson_seconds l = List.map_filter (\<lambda>ts. enh_audit_to_seconds (ts_time ts)) (timestamps l)"


definition range_check :: "lesson \<Rightarrow> bool" where
  "range_check l =
     (case enh_audit_to_seconds (duration l) of
        None \<Rightarrow> True
      | Some d \<Rightarrow> \<forall>s \<in> set (lesson_seconds l). 0 \<le> s \<and> s \<le> d)"





section \<open>audit\_timestamps.py: the verdict for one lesson\<close>

definition audit_to_seconds :: "string \<Rightarrow> int option" where
  "audit_to_seconds hmmss = map_option groups_seconds (DURATION_CLEAN_RE (py_strip hmmss))"

definition is_h_mm_ss :: "string \<Rightarrow> bool" where
  "is_h_mm_ss s = (DURATION_CLEAN_RE (py_strip s) \<noteq> None)"

text \<open>
  The order check keeps the running maximum \<open>prev\<close>, starting at \<open>-1\<close>; the reported
  string is the time of the entry at the same index of the lesson's list.
\<close>

fun order_scan :: "int \<Rightarrow> (int \<times> timestamp) list \<Rightarrow> string list" where
  "order_scan prev [] = []"
| "order_scan prev ((s_val, t) # rest) =
     (if s_val < prev then [ts_time t] else []) @ order_scan (max prev s_val) rest"

definition audit_basic :: "audit_config \<Rightarrow> lesson \<Rightarrow> audit_result" where
  "audit_basic args l =
     (let duration_str = duration l;
          duration_ok = (duration_str \<noteq> [] \<and> is_h_mm_ss (py_strip duration_str));
          duration_s = (if duration_ok then audit_to_seconds (py_strip duration_str) else None);
          stripped = map (\<lambda>t. py_strip (ts_time t)) (timestamps l);
          bad_format = filter (\<lambda>ts. \<not> is_h_mm_ss ts) stripped;
          times_s = List.map_filter audit_to_seconds (filter is_h_mm_ss stripped);
          indexed = zip times_s (timestamps l);
          out_of_range =
            (case duration_s of
               None \<Rightarrow> []
             | Some d \<Rightarrow>
                 map (\<lambda>(s_val, t). ts_time t)
                   (filter (\<lambda>(s_val, t). s_val < 0 \<or> s_val > d) indexed));
          non_monotonic = order_scan (- 1) indexed;
          too_dense =
            map (\<lambda>(a, b). (ts_time (snd a), ts_time (snd b)))
              (filter (\<lambda>(a, b). fst b - fst a < min_sep_s args) (adjacent indexed));
          coverage_gaps =
            (if duration_s \<noteq> None \<and> length times_s \<ge> 2
             then map (\<lambda>(a, b). (ts_time (snd a), ts_time (snd b), fst b - fst a))
                    (filter (\<lambda>(a, b). fst b - fst a > max_gap_s args) (adjacent indexed))
             else []);
          vague_labels = map ts_time (filter (audit_label_vague args) (timestamps l));
          weak_descriptions = map ts_time (filter (audit_desc_weak args) (timestamps l));
          range_bad = (out_of_range \<noteq> []);
          order_ok = (non_monotonic = []);
          density_ok = (too_dense = []);
          coverage_ok = (coverage_gaps = []);
          label_quality_ok = (vague_labels = []);
          desc_quality_ok = (weak_descriptions = []);
          actions =
            (if \<not> duration_ok then [''fix_duration''] else [])
            @ (if range_bad then [''fix_range''] else [])
            @ (if \<not> order_ok then [''fix_order''] else [])
            @ (if \<not> coverage_ok then [''fix_coverage''] else [])
            @ (if \<not> density_ok then [''fix_density''] else [])
            @ (if \<not> label_quality_ok \<or> \<not> desc_quality_ok then [''rewrite_summaries''] else [])
      in \<lparr>ar_duration_ok = duration_ok, ar_format = bad_format, ar_out_of_range = out_of_range,
          ar_non_monotonic = non_monotonic, ar_density = too_dense,
          ar_coverage_gaps = coverage_gaps, ar_vague_labels = vague_labels,
          ar_weak_descriptions = weak_descriptions,
          ar_timestamps_pass =
            (duration_ok \<and> \<not> range_bad \<and> order_ok \<and> coverage_ok \<and> density_ok),
          ar_summaries_pass = (label_quality_ok \<and> desc_quality_ok),
          ar_overall =
            (if duration_ok \<and> \<not> range_bad \<and> order_ok \<and> coverage_ok \<and> density_ok
                \<and> label_quality_ok \<and> desc_quality_ok
             then ''pass'' else ''needs_fixes''),
          ar_actions = actions\<rparr>)"


section \<open>fix\_timestamps.py: rewriting and process\_lesson\<close>

definition DESC_WORDS_MAX :: nat where "DESC_WORDS_MAX = 15"

definition rewrite_label :: "string \<Rightarrow> string \<Rightarrow> string" where
  "rewrite_label old_label context =
     (let words = extract_words (py_lower context);
          has = (\<lambda>w. w \<in> set words);
          config_label =
            (if \<exists>w \<in> set [''configure'', ''config'', ''setup'', ''setting'']. has w then
               (if has ''database'' \<or> has ''pinecone'' then Some ''Configure Database''
                else if has ''api'' then Some ''API Setup''
                else if has ''environment'' \<or> has ''env'' then Some ''Environment Setup''
                else None)
             else None);
          build_label =
            (if \<exists>w \<in> set [''implement'', ''build'', ''create'']. has w then
               (if has ''function'' then Some ''Implement Function''
                else if has ''class'' then Some ''Build Class''
                else if has ''pipeline'' then Some ''Create Pipeline''
                else None)
             else None);
          tech_terms = filter (\<lambda>w. length w > 4 \<and> w \<notin> set GENERIC_LABELS) words
      in case config_label of
           Some l \<Rightarrow> l
         | None \<Rightarrow>
             (case build_label of
                Some l \<Rightarrow> l
              | None \<Rightarrow>
                  if has ''test'' \<or> has ''testing'' then ''Testing Process''
                  else if has ''deploy'' \<or> has ''deployment'' then ''Deployment Steps''
                  else if length tech_terms \<ge> 2 then py_title (py_join '' '' (take 3 tech_terms))
                  else ''Key Concepts''))"

definition rewrite_description :: "string \<Rightarrow> string \<Rightarrow> string \<Rightarrow> string" where
  "rewrite_description old_desc label context =
     (let words = extract_words (py_lower context);
          label_lower = py_lower label;
          found_actions =
            filter (\<lambda>w. w \<in> set words)
              [''create'', ''build'', ''implement'', ''configure'', ''set'', ''deploy'', ''test'',
               ''validate'']
      in if contains ''setup'' label_lower \<or> contains ''configure'' label_lower
         then ''Set up required components and configuration parameters''
         else if contains ''implement'' label_lower \<or> contains ''build'' label_lower
         then ''Build core functionality with error handling''
         else if contains ''test'' label_lower
         then ''Validate implementation with comprehensive test cases''
         else if contains ''deploy'' label_lower
         then ''Deploy to production environment with monitoring''
         else (case found_actions of
                 a # _ \<Rightarrow> ''Learn to '' @ a @ '' and apply best practices''
               | [] \<Rightarrow> ''Understand key concepts and practical applications''))"

text \<open>
  The report of one lesson. A normalisation is logged as the string
  \<open>old -> new\<close>; a removed dense pair is logged as the two time strings (the source joins
  them with an arrow character).
\<close>

record rewrite =
  rw_time :: string
  rw_label :: "(string \<times> string) option"
  rw_desc :: "(string \<times> string) option"

record fix_result =
  fr_lesson_id :: string
  fr_duration_changed :: bool
  fr_normalized_times :: "string list"
  fr_removed_dense_pairs :: "(string \<times> string) list"
  fr_rewritten :: "rewrite list"

definition arrow :: "string \<Rightarrow> string \<Rightarrow> string" where
  "arrow a b = a @ '' -> '' @ b"

text \<open>Step 1: the duration. Returns the new duration and the log entries.\<close>

definition normalize_duration_step :: "bool \<Rightarrow> string \<Rightarrow> string \<times> string list" where
  "normalize_duration_step dry_run d =
     (if d = [] then (d, [])
      else (case fix_normalize_time d of
              (normalized_duration, changed) \<Rightarrow>
                if changed
                then (if dry_run then d else normalized_duration, [arrow d normalized_duration])
                else (d, [])))"

text \<open>Step 2: the time of every entry.\<close>

definition normalize_entry :: "bool \<Rightarrow> timestamp \<Rightarrow> timestamp \<times> string list" where
  "normalize_entry dry_run ts =
     (case fix_normalize_time (ts_time ts) of
        (normalized_time, changed) \<Rightarrow>
          if changed
          then (if dry_run then ts else ts\<lparr>ts_time := normalized_time\<rparr>,
                [arrow (ts_time ts) normalized_time])
          else (ts, []))"

definition normalize_times_step :: "bool \<Rightarrow> timestamp list \<Rightarrow> timestamp list \<times> string list" where
  "normalize_times_step dry_run tss =
     (map (\<lambda>ts. fst (normalize_entry dry_run ts)) tss,
      concat (map (\<lambda>ts. snd (normalize_entry dry_run ts)) tss))"

text \<open>
  Step 3: de-densification. \<open>times_with_index\<close> holds the entries whose time parses, with
  their seconds and their index, sorted by seconds (the sort is stable). \<open>find_dense\<close> is
  the loop over consecutive pairs of that list, with the set \<open>to_remove\<close> of indices.
\<close>

definition times_with_index :: "timestamp list \<Rightarrow> (int \<times> nat \<times> timestamp) list" where
  "times_with_index tss =
     sort_key fst
       (List.map_filter
          (\<lambda>(i, ts). map_option (\<lambda>time_s. (time_s, i, ts)) (fix_to_seconds (ts_time ts)))
          (zip [0 ..< length tss] tss))"

fun find_dense ::
  "nat list \<Rightarrow> (int \<times> nat \<times> timestamp) list \<Rightarrow> nat list \<times> (string \<times> string) list" where
  "find_dense to_remove ((prev_s, prev_idx, prev_ts) # (curr_s, curr_idx, curr_ts) # rest) =
     (if prev_idx \<notin> set to_remove \<and> curr_s - prev_s < MIN_SEP_S
      then (let victim =
                  (if length (get_description curr_ts) > length (get_description prev_ts)
                   then prev_idx else curr_idx);
                (rm, pairs) = find_dense (victim # to_remove) ((curr_s, curr_idx, curr_ts) # rest)
            in (rm, (ts_time prev_ts, ts_time curr_ts) # pairs))
      else find_dense to_remove ((curr_s, curr_idx, curr_ts) # rest))"
| "find_dense to_remove [p] = (to_remove, [])"
| "find_dense to_remove [] = (to_remove, [])"

definition dedensify_step ::
  "bool \<Rightarrow> timestamp list \<Rightarrow> timestamp list \<times> (string \<times> string) list" where
  "dedensify_step dry_run tss =
     (if length tss > 1
      then (case find_dense [] (times_with_index tss) of
              (to_remove, pairs) \<Rightarrow>
                (if to_remove \<noteq> [] \<and> \<not> dry_run
                 then map snd (filter (\<lambda>(i, ts). i \<notin> set to_remove) (zip [0 ..< length tss] tss))
                 else tss,
                 pairs))
      else (tss, []))"

text \<open>Step 4: weak labels and descriptions; the context is the first 500 characters.\<close>

definition rewrite_entry :: "bool \<Rightarrow> string \<Rightarrow> timestamp \<Rightarrow> timestamp \<times> rewrite list" where
  "rewrite_entry dry_run context ts =
     (let label = ts_label ts;
          desc = get_description ts;
          label_change =
            (if is_weak_label label then Some (label, rewrite_label label context) else None);
          desc_change =
            (if is_weak_description desc label
             then (let new_desc = rewrite_description desc label context;
                       new_desc' =
                         (if word_count new_desc > DESC_WORDS_MAX
                          then py_join '' '' (take DESC_WORDS_MAX (py_split_ws new_desc))
                          else new_desc)
                   in Some (desc, new_desc'))
             else None);
          ts1 = (case label_change of
                   Some (old, new) \<Rightarrow> if dry_run then ts else ts\<lparr>ts_label := new\<rparr>
                 | None \<Rightarrow> ts);
          ts2 = (case desc_change of
                   Some (old, new) \<Rightarrow> if dry_run then ts1 else ts1\<lparr>ts_description := Some new\<rparr>
                 | None \<Rightarrow> ts1)
      in (ts2,
          if label_change \<noteq> None \<or> desc_change \<noteq> None
          then [\<lparr>rw_time = ts_time ts, rw_label = label_change, rw_desc = desc_change\<rparr>]
          else []))"

definition rewrite_step :: "bool \<Rightarrow> string \<Rightarrow> timestamp list \<Rightarrow> timestamp list \<times> rewrite list" where
  "rewrite_step dry_run context tss =
     (map (\<lambda>ts. fst (rewrite_entry dry_run context ts)) tss,
      concat (map (\<lambda>ts. snd (rewrite_entry dry_run context ts)) tss))"

definition process_lesson :: "lesson \<Rightarrow> bool \<Rightarrow> fix_result \<times> lesson" where
  "process_lesson l dry_run =
     (case normalize_duration_step dry_run (duration l) of (d1, dur_log) \<Rightarrow>
      case normalize_times_step dry_run (timestamps l) of (tss1, time_log) \<Rightarrow>
      case dedensify_step dry_run tss1 of (tss2, pairs) \<Rightarrow>
      case rewrite_step dry_run (take 500 (content l)) tss2 of (tss3, rewritten) \<Rightarrow>
        (\<lparr>fr_lesson_id = lesson_id l,
          fr_duration_changed = (dur_log \<noteq> []),
          fr_normalized_times = dur_log @ time_log,
          fr_removed_dense_pairs = pairs,
          fr_rewritten = rewritten\<rparr>,
         l\<lparr>duration := d1, timestamps := tss3\<rparr>))"

text \<open>
  The loop of \<open>main\<close> over the weeks and lessons. A lesson is skipped when a selection is
  given (a non-empty list) and does not contain its identifier. \<open>lesson_updated\<close> is the
  condition under which \<open>main\<close> counts a lesson as updated.
\<close>

definition lesson_updated :: "fix_result \<Rightarrow> bool" where
  "lesson_updated r =
     (fr_duration_changed r \<or> fr_normalized_times r \<noteq> [] \<or> fr_removed_dense_pairs r \<noteq> []
      \<or> fr_rewritten r \<noteq> [])"

definition fix_week :: "string list \<Rightarrow> bool \<Rightarrow> week \<Rightarrow> fix_result list \<times> week" where
  "fix_week selection dry_run w =
     (let processed =
            map (\<lambda>l. if selection \<noteq> [] \<and> lesson_id l \<notin> set selection then ([], l)
                      else (case process_lesson l dry_run of (r, l') \<Rightarrow> ([r], l')))
              (lessons w)
      in (concat (map fst processed), w\<lparr>lessons := map snd processed\<rparr>))"

definition fix_course :: "string list \<Rightarrow> bool \<Rightarrow> course \<Rightarrow> fix_result list \<times> course" where
  "fix_course selection dry_run c =
     (concat (map (\<lambda>w. fst (fix_week selection dry_run w)) c),
      map (\<lambda>w. snd (fix_week selection dry_run w)) c)"

section \<open>fix\_timestamps\_enhanced.py: fix\_lesson\_timestamps\<close>

definition MIN_SEPARATION_S :: int where "MIN_SEPARATION_S = 15"

definition position_labels :: "string list" where
  "position_labels =
     [''Core Concepts'', ''Implementation Details'', ''Practical Example'',
      ''Code Walkthrough'', ''Best Practices'', ''Common Patterns'',
      ''Advanced Topics'', ''Troubleshooting'', ''Performance Tips'',
      ''Security Considerations'', ''Integration Points'', ''Next Steps'']"

definition generate_smart_label :: "nat \<Rightarrow> string \<Rightarrow> string list \<Rightarrow> string list \<Rightarrow> string" where
  "generate_smart_label timestamp_idx lesson_title keywords existing_labels =
     (let relevant_tech = filter (\<lambda>k. k \<notin> set GENERIC_TERMS) keywords;
          has = (\<lambda>w. w \<in> set relevant_tech);
          by_position =
            (if timestamp_idx = 0 then
               (if ''introduction'' \<notin> set existing_labels then Some ''Course Introduction''
                else None)
             else if timestamp_idx = 1 then
               (if \<exists>k \<in> set [''setup'', ''config'', ''environment'']. has k
                then Some ''Environment Setup'' else None)
             else None)
      in case by_position of
           Some l \<Rightarrow> l
         | None \<Rightarrow>
             if has ''api'' then
               (if has ''build'' then ''Build API''
                else if has ''test'' then ''Test API''
                else ''API Configuration'')
             else if has ''rag'' then
               (if has ''implement'' then ''Implement RAG''
                else if has ''vector'' then ''Vector Storage''
                else ''RAG Pipeline'')
             else if has ''agent'' then
               (if has ''multi'' then ''Multi-Agent System''
                else if has ''tool'' then ''Agent Tools''
                else ''Agent Architecture'')
             else if has ''deploy'' then ''Production Deployment''
             else if has ''test'' then ''Testing Strategy''
             else (case filter (\<lambda>l. l \<notin> set existing_labels) position_labels of
                     l # _ \<Rightarrow> l
                   | [] \<Rightarrow> ''Section '' @ py_str (int timestamp_idx + 1)))"

definition smart_descriptions :: "string \<Rightarrow> (string \<times> string) list" where
  "smart_descriptions topic =
     [(''course introduction'', ''Overview of '' @ topic @ '' and learning objectives''),
      (''environment setup'', ''Configure development tools for '' @ topic),
      (''core concepts'', ''Fundamental principles of '' @ topic @ '' explained''),
      (''implementation details'', ''Step-by-step coding of '' @ topic @ '' features''),
      (''practical example'', ''Real-world application of '' @ topic @ '' techniques''),
      (''code walkthrough'', ''Line-by-line explanation of '' @ topic @ '' implementation''),
      (''best practices'', ''Industry standards for '' @ topic @ '' development''),
      (''api configuration'', ''Set up endpoints and authentication for '' @ topic),
      (''rag pipeline'', ''Build retrieval and generation components''),
      (''vector storage'', ''Configure embeddings and similarity search''),
      (''agent architecture'', ''Design autonomous decision-making systems''),
      (''multi-agent system'', ''Coordinate multiple AI agents effectively''),
      (''production deployment'', ''Deploy '' @ topic @ '' to cloud infrastructure''),
      (''testing strategy'', ''Validate '' @ topic @ '' with comprehensive tests''),
      (''performance tips'', ''Optimize '' @ topic @ '' for speed and efficiency''),
      (''troubleshooting'', ''Debug common '' @ topic @ '' implementation issues''),
      (''next steps'', ''Advanced topics and further '' @ topic @ '' resources'')]"

definition generate_smart_description :: "string \<Rightarrow> string \<Rightarrow> string list \<Rightarrow> string" where
  "generate_smart_description label lesson_title keywords =
     (let label_lower = py_lower label;
          title_keywords = take 2 (filter (\<lambda>w. length w > 4) keywords);
          topic = (if title_keywords \<noteq> [] then py_join '' and '' title_keywords else ''concepts'')
      in case filter (\<lambda>(key, desc). contains key label_lower) (smart_descriptions topic) of
           (key, desc) # _ \<Rightarrow> take (DESC_WORDS_MAX * 6) desc
         | [] \<Rightarrow>
             if contains ''build'' label_lower \<or> contains ''create'' label_lower
             then ''Build functional '' @ topic @ '' with error handling''
             else if contains ''test'' label_lower
             then ''Validate '' @ topic @ '' functionality and edge cases''
             else if contains ''deploy'' label_lower
             then ''Deploy '' @ topic @ '' to production environment''
             else if contains ''configure'' label_lower \<or> contains ''setup'' label_lower
             then ''Configure '' @ topic @ '' parameters and dependencies''
             else ''Learn '' @ topic @ '' implementation techniques'')"

text \<open>Step 2: every time is normalised in place; a time that does not convert raises.\<close>

fun enh_normalize_times :: "timestamp list \<Rightarrow> py_error + (timestamp list \<times> string list)" where
  "enh_normalize_times [] = Inr ([], [])"
| "enh_normalize_times (ts # rest) =
     (case enh_normalize_time (ts_time ts) of
        Inl e \<Rightarrow> Inl e
      | Inr t \<Rightarrow>
          (case enh_normalize_times rest of
             Inl e \<Rightarrow> Inl e
           | Inr (tss, log) \<Rightarrow>
               Inr (ts\<lparr>ts_time := t\<rparr> # tss,
                    (if ts_time ts \<noteq> t then [''Normalized time: '' @ arrow (ts_time ts) t] else [])
                    @ log)))"

text \<open>
  Step 3 calls \<open>time_to_seconds\<close> on every entry, in list order. It is a function of the
  time string alone and no later step changes the time of an entry, so the model pairs
  each entry with the value computed here; the sort, the merge and the gap search of the
  source compute the same value again.
\<close>

fun with_seconds :: "timestamp list \<Rightarrow> py_error + (int \<times> timestamp) list" where
  "with_seconds [] = Inr []"
| "with_seconds (ts # rest) =
     (case enh_time_to_seconds (ts_time ts) of
        Inl e \<Rightarrow> Inl e
      | Inr s \<Rightarrow>
          (case with_seconds rest of
             Inl e \<Rightarrow> Inl e
           | Inr ps \<Rightarrow> Inr ((s, ts) # ps)))"

text \<open>
  Step 5: the two nested loops. The first argument is the entry \<open>current\<close> with its
  seconds, if a group is open; an entry closer than the minimum separation to the head of
  the group is merged into it, any other entry closes the group and opens the next.
\<close>

fun merge_close ::
  "(int \<times> timestamp) option \<Rightarrow> (int \<times> timestamp) list
     \<Rightarrow> py_error + ((int \<times> timestamp) list \<times> string list)" where
  "merge_close None [] = Inr ([], [])"
| "merge_close (Some cur) [] = Inr ([cur], [])"
| "merge_close None (p # rest) = merge_close (Some p) rest"
| "merge_close (Some (current_seconds, current)) ((s, ts) # rest) =
     (if s - current_seconds < MIN_SEPARATION_S then
        (case (ts_description current, ts_description ts) of
           (Some d1, Some d2) \<Rightarrow>
             (case merge_close
                     (Some (current_seconds, current\<lparr>ts_description := Some (d1 @ ''; '' @ d2)\<rparr>))
                     rest of
                Inl e \<Rightarrow> Inl e
              | Inr (out, log) \<Rightarrow>
                  Inr (out,
                       (''Merged close timestamps: '' @ ts_time current @ '' and '' @ ts_time ts)
                       # log))
         | _ \<Rightarrow> Inl KeyError)
      else
        (case merge_close (Some (s, ts)) rest of
           Inl e \<Rightarrow> Inl e
         | Inr (out, log) \<Rightarrow> Inr ((current_seconds, current) # out, log)))"

text \<open>
  Step 6: a placeholder in the middle of every gap longer than a quarter of the
  duration. The source compares the gap with the floating-point product
  \<open>duration_seconds * 0.25\<close>; for durations below \<open>2^53\<close> seconds that is the exact
  comparison of \<open>4 * gap\<close> with the duration. The placeholders are appended and the
  list is sorted again; the seconds of a placeholder are those of its rendered time.
\<close>

definition placeholder :: "int \<Rightarrow> timestamp" where
  "placeholder mid_point =
     \<lparr>ts_time = seconds_to_time mid_point, ts_label = ''TO_REVIEW'',
      ts_description = Some ''Section needs manual review for content''\<rparr>"

definition gaps_to_fill :: "int \<Rightarrow> (int \<times> timestamp) list \<Rightarrow> int list" where
  "gaps_to_fill duration_seconds ps =
     map (\<lambda>(a, b). fst a + (fst b - fst a) div 2)
       (filter (\<lambda>(a, b). 4 * (fst b - fst a) > duration_seconds) (adjacent ps))"

definition fill_gaps ::
  "int \<Rightarrow> (int \<times> timestamp) list \<Rightarrow> (int \<times> timestamp) list \<times> string list" where
  "fill_gaps duration_seconds ps =
     (if length ps > 1
      then (sort_key fst (ps @ map (\<lambda>m. (m, placeholder m)) (gaps_to_fill duration_seconds ps)),
            map (\<lambda>m. ''Added coverage timestamp at '' @ seconds_to_time m)
              (gaps_to_fill duration_seconds ps))
      else (ps, []))"

text \<open>Step 8: the rewrites, with the index of the entry and the labels seen so far.\<close>

fun enh_rewrite ::
  "string \<Rightarrow> string list \<Rightarrow> nat \<Rightarrow> string list \<Rightarrow> timestamp list
     \<Rightarrow> timestamp list \<times> string list" where
  "enh_rewrite ttl keywords i existing_labels [] = ([], [])"
| "enh_rewrite ttl keywords i existing_labels (ts # rest) =
     (let original_label = ts_label ts;
          original_desc = get_description ts;
          relabel = (needs_label_rewrite existing_labels original_label
                     \<and> original_label \<noteq> ''TO_REVIEW'');
          new_label = generate_smart_label i ttl keywords existing_labels;
          ts1 = (if relabel then ts\<lparr>ts_label := new_label\<rparr> else ts);
          log1 = (if relabel
                  then [''Rewrote label at '' @ ts_time ts @ '': '' @ [CHR 0x27] @ original_label
                        @ [CHR 0x27] @ '' -> '' @ [CHR 0x27] @ new_label @ [CHR 0x27]]
                  else []);
          redesc = needs_desc_rewrite original_desc original_label;
          new_desc = generate_smart_description (ts_label ts1) ttl keywords;
          ts2 = (if redesc then ts1\<lparr>ts_description := Some new_desc\<rparr> else ts1);
          log2 = (if redesc
                  then [''Rewrote description at '' @ ts_time ts @ '': '' @ [CHR 0x27]
                        @ original_desc @ [CHR 0x27] @ '' -> '' @ [CHR 0x27] @ new_desc
                        @ [CHR 0x27]]
                  else [])
      in case enh_rewrite ttl keywords (Suc i) (existing_labels @ [ts_label ts1]) rest of
           (out, log) \<Rightarrow> (ts2 # out, log1 @ log2 @ log))"

record enh_fix_result =
  er_lesson_id :: string
  er_updated_timestamps :: "timestamp list"
  er_changes_summary :: "string list"

text \<open>
  \<open>fix_lesson_timestamps\<close>. The keyword list is the result of
  \<open>extract_keywords_from_content\<close>, whose order is that of a Python set and so not a
  function of the lesson; it is a parameter here (for an empty title and empty content it
  is the empty list). The audit data is never read. The report's field
  \<open>original_timestamps\<close> is not modelled.
\<close>

definition fix_lesson_timestamps :: "string list \<Rightarrow> lesson \<Rightarrow> py_error + enh_fix_result" where
  "fix_lesson_timestamps keywords l =
     (case enh_normalize_time (duration l) of
        Inl e \<Rightarrow> Inl e
      | Inr duration_str \<Rightarrow>
     (case enh_time_to_seconds duration_str of
        Inl e \<Rightarrow> Inl e
      | Inr duration_seconds \<Rightarrow>
     (case enh_normalize_times (timestamps l) of
        Inl e \<Rightarrow> Inl e
      | Inr (tss, time_log) \<Rightarrow>
     (case with_seconds tss of
        Inl e \<Rightarrow> Inl e
      | Inr ps \<Rightarrow>
     (case merge_close None (sort_key fst (filter (\<lambda>(s, ts). s < duration_seconds) ps)) of
        Inl e \<Rightarrow> Inl e
      | Inr (merged, merge_log) \<Rightarrow>
     (case fill_gaps duration_seconds merged of (filled, gap_log) \<Rightarrow>
     (case enh_rewrite (title l) keywords 0 [] (map snd filled) of (updated, rewrite_log) \<Rightarrow>
        Inr \<lparr>er_lesson_id = lesson_id l,
             er_updated_timestamps = updated,
             er_changes_summary =
               (if duration l \<noteq> duration_str
                then [''Fixed duration format: '' @ arrow (duration l) duration_str] else [])
               @ time_log @ merge_log @ gap_log @ rewrite_log
               @ (if \<exists>ts \<in> set updated. ts_label ts = ''TO_REVIEW''
                  then [''Manual Review Required - coverage gaps filled with TO_REVIEW'']
                  else [])\<rparr>)))))))"

section \<open>fix\_timestamps\_enhanced.py: applying the result\<close>

text \<open>\<open>str.split(sep)\<close> for a separator of several characters.\<close>

fun split_str_acc :: "string \<Rightarrow> nat \<Rightarrow> string \<Rightarrow> string \<Rightarrow> string list" where
  "split_str_acc sep skip cur [] = [cur]"
| "split_str_acc sep (Suc k) cur (c # cs) = split_str_acc sep k cur cs"
| "split_str_acc sep 0 cur (c # cs) =
     (if take (length sep) (c # cs) = sep
      then cur # split_str_acc sep (length sep - 1) [] cs
      else split_str_acc sep 0 (cur @ [c]) cs)"

definition split_str :: "string \<Rightarrow> string \<Rightarrow> string list" where
  "split_str sep s = split_str_acc sep 0 [] s"

text \<open>
  \<open>main\<close> takes the new duration from the first change that contains the text
  \<open>Fixed duration format:\<close>, as the second piece of that change split at \<open> -> \<close>.
\<close>

definition new_duration :: "string list \<Rightarrow> py_error + string option" where
  "new_duration changes =
     (case filter (contains ''Fixed duration format:'') changes of
        [] \<Rightarrow> Inr None
      | change # _ \<Rightarrow>
          (case split_str '' -> '' change of
             _ # p1 # _ \<Rightarrow> Inr (Some p1)
           | _ \<Rightarrow> Inl IndexError))"

definition enh_apply :: "bool \<Rightarrow> lesson \<Rightarrow> enh_fix_result \<Rightarrow> py_error + lesson" where
  "enh_apply dry_run l r =
     (if \<not> dry_run \<and> er_changes_summary r \<noteq> [] then
        (case new_duration (er_changes_summary r) of
           Inl e \<Rightarrow> Inl e
         | Inr nd \<Rightarrow>
             Inr (l\<lparr>timestamps := er_updated_timestamps r,
                     duration := (case nd of Some d \<Rightarrow> d | None \<Rightarrow> duration l)\<rparr>))
      else Inr l)"

fun enh_fix_lessons ::
  "(lesson \<Rightarrow> string list) \<Rightarrow> bool \<Rightarrow> lesson list
     \<Rightarrow> py_error + (enh_fix_result list \<times> lesson list)" where
  "enh_fix_lessons kw dry_run [] = Inr ([], [])"
| "enh_fix_lessons kw dry_run (l # rest) =
     (case fix_lesson_timestamps (kw l) l of
        Inl e \<Rightarrow> Inl e
      | Inr r \<Rightarrow>
          (case enh_apply dry_run l r of
             Inl e \<Rightarrow> Inl e
           | Inr l' \<Rightarrow>
               (case enh_fix_lessons kw dry_run rest of
                  Inl e \<Rightarrow> Inl e
                | Inr (rs, ls) \<Rightarrow> Inr (r # rs, l' # ls))))"

fun enh_fix_course ::
  "(lesson \<Rightarrow> string list) \<Rightarrow> bool \<Rightarrow> course \<Rightarrow> py_error + (enh_fix_result list \<times> course)" where
  "enh_fix_course kw dry_run [] = Inr ([], [])"
| "enh_fix_course kw dry_run (w # rest) =
     (case enh_fix_lessons kw dry_run (lessons w) of
        Inl e \<Rightarrow> Inl e
      | Inr (rs, ls) \<Rightarrow>
          (case enh_fix_course kw dry_run rest of
             Inl e \<Rightarrow> Inl e
           | Inr (rs', ws) \<Rightarrow> Inr (rs @ rs', w\<lparr>lessons := ls\<rparr> # ws)))"

section \<open>The runs of the two fixers on the file system\<close>

text \<open>
  The course file is missing, holds a document, or holds the remains of an interrupted
  write. A backup is a copy of the file as it is. A run performs operations in the order
  of the source; every operation can fail (the parameter \<open>fails\<close>), which raises and ends
  the run. The trace lists the operations that completed. Opening the course file for
  writing truncates it (\<open>TruncateCourse\<close>); the document is complete after \<open>DumpCourse\<close>.
\<close>

datatype io_event =
  ReadCourse | ReadAuditReport | MakeBackupDir | CopyBackup | TruncateCourse | DumpCourse
  | WriteLog | WriteNdjson | WriteReport

datatype file_state = Missing | Stored course | Partial

record world =
  course_file :: file_state
  backups :: "file_state list"

text \<open>\<open>main\<close> of \<open>fix_timestamps.py\<close>: read, back up, process, write, log.\<close>

definition main_fix ::
  "(io_event \<Rightarrow> bool) \<Rightarrow> string list \<Rightarrow> bool \<Rightarrow> bool \<Rightarrow> bool \<Rightarrow> world
     \<Rightarrow> (py_error + fix_result list) \<times> world \<times> io_event list" where
  "main_fix fails selection dry_run log_path ndjson_path w =
     (if fails ReadCourse then (Inl OSError, w, [])
      else case course_file w of
        Missing \<Rightarrow> (Inl OSError, w, [])
      | Partial \<Rightarrow> (Inl ValueError, w, [])
      | Stored c \<Rightarrow>
          if \<not> dry_run \<and> fails MakeBackupDir then (Inl OSError, w, [ReadCourse])
          else if \<not> dry_run \<and> fails CopyBackup then (Inl OSError, w, [ReadCourse, MakeBackupDir])
          else
            (let w1 = (if dry_run then w else w\<lparr>backups := backups w @ [course_file w]\<rparr>);
                 tr1 = (if dry_run then [ReadCourse] else [ReadCourse, MakeBackupDir, CopyBackup]);
                 results = fst (fix_course selection dry_run c);
                 c' = snd (fix_course selection dry_run c)
             in if \<not> dry_run \<and> fails TruncateCourse then (Inl OSError, w1, tr1)
                else if \<not> dry_run \<and> fails DumpCourse
                then (Inl OSError, w1\<lparr>course_file := Partial\<rparr>, tr1 @ [TruncateCourse])
                else
                  (let w2 = (if dry_run then w1 else w1\<lparr>course_file := Stored c'\<rparr>);
                       tr2 = (if dry_run then tr1 else tr1 @ [TruncateCourse, DumpCourse])
                   in if log_path \<and> fails WriteLog then (Inl OSError, w2, tr2)
                      else
                        (let tr3 = (if log_path then tr2 @ [WriteLog] else tr2)
                         in if ndjson_path \<and> fails WriteNdjson then (Inl OSError, w2, tr3)
                            else (Inr results, w2,
                                  if ndjson_path then tr3 @ [WriteNdjson] else tr3)))))"

text \<open>
  \<open>main\<close> of \<open>fix_timestamps_enhanced.py\<close>: back up, read the course and the audit report,
  process, write, report. The copy fails when there is no course file. The name
  \<open>datetime\<close> is imported inside the branch for a run that is not a dry run, which makes
  it a local name of \<open>main\<close>: in a dry run it is unbound when the report is assembled,
  and the run ends there with \<open>UnboundLocalError\<close>.
\<close>

definition main_enh ::
  "(io_event \<Rightarrow> bool) \<Rightarrow> (lesson \<Rightarrow> string list) \<Rightarrow> bool \<Rightarrow> world
     \<Rightarrow> (py_error + enh_fix_result list) \<times> world \<times> io_event list" where
  "main_enh fails kw dry_run w =
     (if \<not> dry_run \<and> fails MakeBackupDir then (Inl OSError, w, [])
      else if \<not> dry_run \<and> (fails CopyBackup \<or> course_file w = Missing)
      then (Inl OSError, w, [MakeBackupDir])
      else
        (let w1 = (if dry_run then w else w\<lparr>backups := backups w @ [course_file w]\<rparr>);
             tr1 = (if dry_run then [] else [MakeBackupDir, CopyBackup])
         in if fails ReadCourse then (Inl OSError, w1, tr1)
            else case course_file w of
              Missing \<Rightarrow> (Inl OSError, w1, tr1)
            | Partial \<Rightarrow> (Inl ValueError, w1, tr1)
            | Stored c \<Rightarrow>
                if fails ReadAuditReport then (Inl OSError, w1, tr1 @ [ReadCourse])
                else
                  (case enh_fix_course kw dry_run c of
                     Inl e \<Rightarrow> (Inl e, w1, tr1 @ [ReadCourse, ReadAuditReport])
                   | Inr (results, c') \<Rightarrow>
                       (let tr2 = tr1 @ [ReadCourse, ReadAuditReport]
                        in if \<not> dry_run \<and> fails TruncateCourse then (Inl OSError, w1, tr2)
                           else if \<not> dry_run \<and> fails DumpCourse
                           then (Inl OSError, w1\<lparr>course_file := Partial\<rparr>, tr2 @ [TruncateCourse])
                           else
                             (let w2 = (if dry_run then w1 else w1\<lparr>course_file := Stored c'\<rparr>);
                                  tr3 = (if dry_run then tr2 else tr2 @ [TruncateCourse, DumpCourse])
                              in if dry_run then (Inl UnboundLocalError, w2, tr3)
                                 else if fails WriteReport then (Inl OSError, w2, tr3)
                                 else (Inr results, w2, tr3 @ [WriteReport]))))))"

text \<open>
  \<open>preceded a b tr\<close>: no \<open>b\<close> occurs in the trace before the first \<open>a\<close>, so every \<open>b\<close>
  of the trace comes after an \<open>a\<close>.
\<close>

fun preceded :: "io_event \<Rightarrow> io_event \<Rightarrow> io_event list \<Rightarrow> bool" where
  "preceded a b [] = True"
| "preceded a b (x # xs) = (if x = a then True else if x = b then False else preceded a b xs)"

section \<open>Lessons that need no repair\<close>

text \<open>
  A canonical time is the rendering \<open>H:MM:SS\<close> of hours, minutes below 60 and seconds
  below 60. A lesson is settled for \<open>fix_timestamps.py\<close> when its duration is empty or
  canonical, every time is canonical, consecutive entries are at least the minimum
  separation apart in list order, and no label or description is weak.
\<close>

definition canonical :: "string \<Rightarrow> bool" where
  "canonical t =
     (case split_on CHR '':'' t of
        [a, b, c] \<Rightarrow>
          (case (py_int a, py_int b, py_int c) of
             (Some h, Some m, Some s) \<Rightarrow>
               0 \<le> h \<and> 0 \<le> m \<and> m < 60 \<and> 0 \<le> s \<and> s < 60 \<and> t = fmt_hms h m s
           | _ \<Rightarrow> False)
      | _ \<Rightarrow> False)"

definition apart :: "timestamp \<Rightarrow> timestamp \<Rightarrow> bool" where
  "apart a b =
     (case (fix_to_seconds (ts_time a), fix_to_seconds (ts_time b)) of
        (Some sa, Some sb) \<Rightarrow> MIN_SEP_S \<le> sb - sa
      | _ \<Rightarrow> False)"

definition settled :: "lesson \<Rightarrow> bool" where
  "settled l =
     ((duration l = [] \<or> canonical (duration l))
      \<and> (\<forall>ts \<in> set (timestamps l).
            canonical (ts_time ts) \<and> \<not> is_weak_label (ts_label ts)
            \<and> \<not> is_weak_description (get_description ts) (ts_label ts))
      \<and> successively apart (timestamps l))"

definition no_changes :: "string \<Rightarrow> fix_result" where
  "no_changes i =
     \<lparr>fr_lesson_id = i, fr_duration_changed = False, fr_normalized_times = [],
      fr_removed_dense_pairs = [], fr_rewritten = []\<rparr>"

text \<open>
  Notions used to state the properties of the enhanced fixer: a list of entries paired
  with their seconds is \<open>paired\<close> when every pair holds the value \<open>time_to_seconds\<close>
  gives for the entry; \<open>time_key\<close> is what the merge keeps of an entry.
\<close>

definition paired :: "(int \<times> timestamp) list \<Rightarrow> bool" where
  "paired ps = (\<forall>p \<in> set ps. enh_time_to_seconds (ts_time (snd p)) = Inr (fst p))"

definition time_key :: "int \<times> timestamp \<Rightarrow> int \<times> string" where
  "time_key p = (fst p, ts_time (snd p))"

definition opt_cons :: "'a option \<Rightarrow> 'a list \<Rightarrow> 'a list" where
  "opt_cons c ps = (case c of None \<Rightarrow> ps | Some x \<Rightarrow> x # ps)"

text \<open>A lesson and an entry with an acceptable label and description, for the examples.\<close>

definition demo_entry :: "string \<Rightarrow> timestamp" where
  "demo_entry t = \<lparr>ts_time = t, ts_label = ''Vector Storage'',
       ts_description = Some ''Build and query the index''\<rparr>"

definition demo_lesson :: "string \<Rightarrow> timestamp list \<Rightarrow> lesson" where
  "demo_lesson d tss = \<lparr>lesson_id = ''w1-l1'', title = [], duration = d, content = [], timestamps = tss\<rparr>"

definition demo_entry2 :: "string \<Rightarrow> timestamp" where
  "demo_entry2 t = \<lparr>ts_time = t, ts_label = ''Index Queries'',
       ts_description = Some ''Run and inspect search results''\<rparr>"

text \<open>Characters of a rendered number: digits and the minus sign.\<close>

definition num_char :: "char \<Rightarrow> bool" where
  "num_char c = (is_digit c \<or> c = CHR ''-'')"

section \<open>Facts about the primitives\<close>

lemma less_ten_cases:
  "d < 10 \<Longrightarrow> d = 0 \<or> d = 1 \<or> d = 2 \<or> d = 3 \<or> d = 4 \<or> d = 5 \<or> d = 6 \<or> d = 7 \<or> d = 8 \<or> d = (9::nat)"
  by arith

lemma is_digit_digit_char: "d < 10 \<Longrightarrow> is_digit (digit_char d)"
  by (drule less_ten_cases) (auto simp: is_digit_def digit_char_def)

lemma digit_val_digit_char: "d < 10 \<Longrightarrow> digit_val (digit_char d) = d"
  by (drule less_ten_cases) (auto simp: digit_val_def digit_char_def)

lemma digit_not_space: "is_digit c \<Longrightarrow> \<not> is_space c"
  by (auto simp: is_digit_def is_space_def SPACES_def)

lemma digit_not_special:
  "is_digit c \<Longrightarrow> c \<noteq> CHR '':'' \<and> c \<noteq> CHR ''-'' \<and> c \<noteq> CHR ''+'' \<and> c \<noteq> CHR ''_'' \<and> c \<noteq> CHR ''(''"
  by (auto simp: is_digit_def)

lemma digit05_digit: "is_digit05 c \<Longrightarrow> is_digit c"
  by (auto simp: is_digit05_def is_digit_def)

lemma digits_of_digits: "\<forall>c \<in> set (digits_of n). is_digit c"
proof (induction n rule: digits_of.induct)
  case (1 n)
  show ?case
  proof (cases "n < 10")
    case True
    then show ?thesis by (subst digits_of.simps) (simp add: is_digit_digit_char)
  next
    case False
    with 1 show ?thesis by (subst digits_of.simps) (simp add: is_digit_digit_char)
  qed
qed

lemma digits_of_nonempty: "digits_of n \<noteq> []"
  by (subst digits_of.simps) simp

lemma digits_value_snoc: "digits_value (xs @ [c]) = 10 * digits_value xs + digit_val c"
  by (simp add: digits_value_def)

lemma digits_value_digits_of: "digits_value (digits_of n) = n"
proof (induction n rule: digits_of.induct)
  case (1 n)
  show ?case
  proof (cases "n < 10")
    case True
    then show ?thesis
      by (subst digits_of.simps) (simp add: digits_value_def digit_val_digit_char)
  next
    case False
    with 1 show ?thesis
      by (subst digits_of.simps) (simp add: digits_value_snoc digit_val_digit_char)
  qed
qed

lemma digits_value_zero_cons: "digits_value (CHR ''0'' # ds) = digits_value ds"
  by (simp add: digits_value_def digit_val_def)

lemma int_body_ok_digits: "ds \<noteq> [] \<Longrightarrow> \<forall>c \<in> set ds. is_digit c \<Longrightarrow> int_body_ok ds"
  by (induction ds rule: int_body_ok.induct) (auto dest: digit_not_special)

lemma filter_underscore_digits:
  "\<forall>c \<in> set ds. is_digit c \<Longrightarrow> filter (\<lambda>c. c \<noteq> CHR ''_'') ds = ds"
  by (induction ds) (auto dest: digit_not_special)

lemma int_unsigned_digits:
  "ds \<noteq> [] \<Longrightarrow> \<forall>c \<in> set ds. is_digit c \<Longrightarrow> int_unsigned ds = Some (int (digits_value ds))"
  by (simp add: int_unsigned_def int_body_ok_digits filter_underscore_digits)

lemma strip_with_id: "\<forall>c \<in> set s. \<not> p c \<Longrightarrow> strip_with p s = s"
proof -
  assume a: "\<forall>c \<in> set s. \<not> p c"
  have d: "\<And>t. \<forall>c \<in> set t. \<not> p c \<Longrightarrow> dropWhile p t = t"
    by (case_tac t) auto
  from a have "dropWhile p s = s" by (rule d)
  moreover from a have "dropWhile p (rev s) = rev s" by (intro d) simp
  ultimately show ?thesis by (simp add: strip_with_def)
qed

lemma py_strip_id: "\<forall>c \<in> set s. \<not> is_space c \<Longrightarrow> py_strip s = s"
  by (simp add: py_strip_def strip_with_id)

lemma c_space_is_space: "is_c_space c \<Longrightarrow> is_space c"
  by (auto simp: is_c_space_def is_space_def SPACES_def)

lemma int_strip_id: "\<forall>c \<in> set s. \<not> is_space c \<Longrightarrow> strip_with is_c_space s = s"
  by (rule strip_with_id) (auto dest: c_space_is_space)

lemma py_int_digits:
  assumes "ds \<noteq> []" "\<forall>c \<in> set ds. is_digit c"
  shows "py_int ds = Some (int (digits_value ds))"
proof -
  from assms have s: "strip_with is_c_space ds = ds" by (intro int_strip_id) (auto dest: digit_not_space)
  from assms obtain c r where cr: "ds = c # r" by (cases ds) auto
  with assms have "is_digit c" by simp
  then have "c \<noteq> CHR ''-''" "c \<noteq> CHR ''+''" by (auto dest: digit_not_special)
  with s cr assms show ?thesis
    using int_unsigned_digits [of ds] by (simp add: py_int_def)
qed

lemma py_int_neg_digits:
  assumes "ds \<noteq> []" "\<forall>c \<in> set ds. is_digit c"
  shows "py_int (CHR ''-'' # ds) = Some (- int (digits_value ds))"
proof -
  have "\<not> is_space CHR ''-''" by (simp add: is_space_def SPACES_def)
  with assms have s: "strip_with is_c_space (CHR ''-'' # ds) = CHR ''-'' # ds"
    by (intro int_strip_id) (auto dest: digit_not_space)
  with assms show ?thesis
    using int_unsigned_digits [of ds] by (simp add: py_int_def)
qed

lemma py_int_py_str: "py_int (py_str n) = Some n"
proof (cases "n < 0")
  case True
  then show ?thesis
    using py_int_neg_digits [OF digits_of_nonempty digits_of_digits, of "nat (- n)"]
    by (simp add: py_str_def digits_value_digits_of)
next
  case False
  then show ?thesis
    using py_int_digits [OF digits_of_nonempty digits_of_digits, of "nat n"]
    by (simp add: py_str_def digits_value_digits_of)
qed

lemma py_int_fmt02: "py_int (fmt02 n) = Some n"
proof (cases "0 \<le> n \<and> n < 10")
  case True
  have "is_digit CHR ''0''" by (simp add: is_digit_def)
  then have "py_int (CHR ''0'' # digits_of (nat n)) = Some (int (digits_value (CHR ''0'' # digits_of (nat n))))"
    using digits_of_digits [of "nat n"] by (intro py_int_digits) auto
  with True show ?thesis
    by (simp add: fmt02_def digits_value_zero_cons digits_value_digits_of)
next
  case False
  then have "fmt02 n = py_str n" by (auto simp: fmt02_def py_str_def)
  then show ?thesis by (simp add: py_int_py_str)
qed


lemma num_char_facts:
  "num_char c \<Longrightarrow> \<not> is_space c \<and> c \<noteq> CHR '':'' \<and> c \<noteq> CHR ''('' \<and> c \<noteq> CHR 0x0A"
  by (auto simp: num_char_def is_digit_def is_space_def SPACES_def)

lemma py_str_chars: "\<forall>c \<in> set (py_str n). num_char c"
  using digits_of_digits by (auto simp: py_str_def num_char_def)

lemma fmt02_chars: "\<forall>c \<in> set (fmt02 n). num_char c"
proof -
  have z: "num_char CHR ''0''" by (simp add: num_char_def is_digit_def)
  have d: "\<forall>c \<in> set (digits_of (nat n)). num_char c"
    using digits_of_digits [of "nat n"] by (simp add: num_char_def)
  from z d py_str_chars [of n] show ?thesis by (simp add: fmt02_def)
qed

lemma split_on_nonempty: "split_on c s \<noteq> []"
  by (induction s) (auto split: list.splits)

lemma split_on_notin: "c \<notin> set a \<Longrightarrow> split_on c a = [a]"
  by (induction a) auto

lemma split_on_append: "c \<notin> set a \<Longrightarrow> split_on c (a @ c # b) = a # split_on c b"
  by (induction a) (auto split: list.splits)

lemma split_fmt_hms: "split_on CHR '':'' (fmt_hms h m s) = [py_str h, fmt02 m, fmt02 s]"
proof -
  have a: "CHR '':'' \<notin> set (py_str h)" using py_str_chars num_char_facts by blast
  have b: "CHR '':'' \<notin> set (fmt02 m)" using fmt02_chars num_char_facts by blast
  have c: "CHR '':'' \<notin> set (fmt02 s)" using fmt02_chars num_char_facts by blast
  show ?thesis
    by (simp add: fmt_hms_def split_on_append [OF a] split_on_append [OF b] split_on_notin [OF c])
qed

section \<open>Rendered times\<close>

lemma paren_match_none: "CHR ''('' \<notin> set s \<Longrightarrow> paren_match s = None"
proof -
  assume a: "CHR ''('' \<notin> set s"
  show ?thesis
  proof (cases "dropWhile is_space s")
    case Nil
    then show ?thesis unfolding paren_match_def by (simp only: list.case)
  next
    case (Cons c r)
    then have "c \<in> set (dropWhile is_space s)" by simp
    then have "c \<in> set s" by (rule set_dropWhileD)
    with a have "c \<noteq> CHR ''(''" by auto
    with Cons show ?thesis by (simp add: paren_match_def)
  qed
qed

lemma sub_parens_id: "CHR ''('' \<notin> set s \<Longrightarrow> sub_parens s = s"
proof (induction s)
  case Nil
  show ?case by simp
next
  case (Cons c cs)
  from Cons.prems have "paren_match (c # cs) = None" by (rule paren_match_none)
  moreover from Cons have "sub_parens cs = cs" by simp
  ultimately show ?case by simp
qed

lemma fmt_hms_chars: "c \<in> set (fmt_hms h m s) \<Longrightarrow> num_char c \<or> c = CHR '':''"
  using py_str_chars [of h] fmt02_chars [of m] fmt02_chars [of s]
  by (auto simp: fmt_hms_def)

lemma fmt_hms_no_space: "c \<in> set (fmt_hms h m s) \<Longrightarrow> \<not> is_space c"
proof -
  assume "c \<in> set (fmt_hms h m s)"
  then have "num_char c \<or> c = CHR '':''" by (rule fmt_hms_chars)
  then show ?thesis
  proof
    assume "num_char c" then show ?thesis by (simp add: num_char_facts)
  next
    assume "c = CHR '':''" then show ?thesis by (simp add: is_space_def SPACES_def)
  qed
qed

lemma fmt_hms_no_paren: "CHR ''('' \<notin> set (fmt_hms h m s)"
proof
  assume "CHR ''('' \<in> set (fmt_hms h m s)"
  then have "num_char CHR ''('' \<or> CHR ''('' = CHR '':''" by (rule fmt_hms_chars)
  then show False by (simp add: num_char_def is_digit_def)
qed

lemma fmt_hms_clean: "sub_parens (py_strip (fmt_hms h m s)) = fmt_hms h m s"
proof -
  have "py_strip (fmt_hms h m s) = fmt_hms h m s"
    by (rule py_strip_id) (simp add: fmt_hms_no_space)
  then show ?thesis by (simp add: sub_parens_id fmt_hms_no_paren)
qed

lemma enh_normalize_fmt_hms:
  "enh_normalize_time (fmt_hms h m s) =
     Inr (fmt_hms (h + (m + s div 60) div 60) ((m + s div 60) mod 60) (s mod 60))"
  by (simp add: enh_normalize_time_def fmt_hms_clean split_fmt_hms py_int_py_str py_int_fmt02 Let_def)

lemma roll_linear:
  "a * 60 + b = s \<Longrightarrow> c * 60 + d = m + a \<Longrightarrow>
     (h + c) * 3600 + d * 60 + b = h * 3600 + m * 60 + (s :: int)"
proof -
  assume "a * 60 + b = s" "c * 60 + d = m + a"
  then have "s = a * 60 + b" "d = m + a - c * 60" by simp_all
  then show ?thesis by (simp add: algebra_simps)
qed

lemma hms_roll_sum:
  "(h + (m + s div 60) div 60) * 3600 + ((m + s div 60) mod 60) * 60 + s mod 60
     = h * 3600 + m * 60 + (s :: int)"
  by (rule roll_linear) simp_all

lemma enh_time_to_seconds_fmt_hms:
  "enh_time_to_seconds (fmt_hms h m s) = Inr (h * 3600 + m * 60 + s)"
  using hms_roll_sum [of h m s]
  by (simp add: enh_time_to_seconds_def enh_normalize_fmt_hms split_fmt_hms py_int_py_str py_int_fmt02)

lemma enh_normalize_canonical:
  "0 \<le> m \<Longrightarrow> m < 60 \<Longrightarrow> 0 \<le> s \<Longrightarrow> s < 60 \<Longrightarrow> enh_normalize_time (fmt_hms h m s) = Inr (fmt_hms h m s)"
  by (simp add: enh_normalize_fmt_hms)

lemma sec_linear:
  "a * 3600 + b = n \<Longrightarrow> c * 60 + d = b \<Longrightarrow> a * 3600 + c * 60 + d = (n :: int)"
  by simp

lemma sec_decompose: "(n div 3600) * 3600 + ((n mod 3600) div 60) * 60 + n mod 60 = (n :: int)"
proof -
  have a: "n mod 3600 mod 60 = n mod 60" by (simp add: mod_mod_cancel)
  have "(n div 3600) * 3600 + ((n mod 3600) div 60) * 60 + n mod 3600 mod 60 = n"
    by (rule sec_linear) simp_all
  with a show ?thesis by simp
qed

text \<open>
  Claim C10. Rendering seconds and parsing the result is a round trip: for every
  non-negative integer \<open>n\<close>, \<open>time_to_seconds(seconds_to_time(n))\<close> returns \<open>n\<close>, and the
  rendered string is canonical, that is, normalisation returns it unchanged.
\<close>

theorem seconds_round_trip:
  "0 \<le> n \<Longrightarrow> enh_time_to_seconds (seconds_to_time n) = Inr n
     \<and> enh_normalize_time (seconds_to_time n) = Inr (seconds_to_time n)"
  using sec_decompose [of n]
  by (simp add: seconds_to_time_def enh_time_to_seconds_fmt_hms enh_normalize_canonical)

theorem seconds_round_trip_witness:
  "enh_time_to_seconds (seconds_to_time 3725) = Inr 3725 \<and> seconds_to_time 3725 = ''1:02:05''"
proof -
  have "seconds_to_time 3725 = ''1:02:05''" by code_simp
  with seconds_round_trip [of 3725] show ?thesis by simp
qed

section \<open>Normalisation and the seconds value\<close>

lemma ss_take_shape:
  "ss_take r = Some (g3, rest) \<Longrightarrow> r = g3 @ rest \<and> g3 \<noteq> [] \<and> (\<forall>c \<in> set g3. is_digit c)"
  by (auto simp: ss_take_def dest: digit05_digit split: list.splits if_splits)

lemma mmss_take_shape:
  assumes "mmss_take r = Some (g2, g3, rest)"
  shows "r = g2 @ CHR '':'' # g3 @ rest \<and> g2 \<noteq> [] \<and> (\<forall>c \<in> set g2. is_digit c)
         \<and> g3 \<noteq> [] \<and> (\<forall>c \<in> set g3. is_digit c)"
proof -
  from assms have ok: "mm_ok (takeWhile is_digit r)"
    by (simp add: mmss_take_def Let_def split: if_splits)
  from assms ok obtain r' where d: "dropWhile is_digit r = CHR '':'' # r'"
    and s: "ss_take r' = Some (g3, rest)" and g: "g2 = takeWhile is_digit r"
    by (auto simp: mmss_take_def Let_def split: list.splits if_splits option.splits)
  have "r = takeWhile is_digit r @ dropWhile is_digit r" by simp
  with d g have r: "r = g2 @ CHR '':'' # r'" by simp
  from ok g have ne: "g2 \<noteq> []" by (auto simp: mm_ok_def)
  from g have dg: "\<forall>c \<in> set g2. is_digit c" by (auto dest: set_takeWhileD)
  from ss_take_shape [OF s] r ne dg show ?thesis by simp
qed

lemma time_core_shape:
  assumes "time_core s = Some (g1, g2, g3, rest)"
  shows "s = (case g1 of None \<Rightarrow> [] | Some d \<Rightarrow> d @ [CHR '':'']) @ g2 @ CHR '':'' # g3 @ rest
         \<and> (\<forall>d. g1 = Some d \<longrightarrow> d \<noteq> [] \<and> (\<forall>c \<in> set d. is_digit c))
         \<and> g2 \<noteq> [] \<and> (\<forall>c \<in> set g2. is_digit c)
         \<and> g3 \<noteq> [] \<and> (\<forall>c \<in> set g3. is_digit c)"
proof (cases g1)
  case None
  with assms have "mmss_take s = Some (g2, g3, rest)"
    by (auto simp: time_core_def Let_def split: option.splits list.splits if_splits)
  from mmss_take_shape [OF this] None show ?thesis by simp
next
  case (Some d)
  with assms obtain r where d: "d = takeWhile is_digit s" and ne: "d \<noteq> []"
    and dr: "dropWhile is_digit s = CHR '':'' # r" and m: "mmss_take r = Some (g2, g3, rest)"
    by (auto simp: time_core_def Let_def split: option.splits list.splits if_splits)
  have "s = takeWhile is_digit s @ dropWhile is_digit s" by simp
  with d dr have s: "s = d @ CHR '':'' # r" by simp
  from d have dg: "\<forall>c \<in> set d. is_digit c" by (auto dest: set_takeWhileD)
  from mmss_take_shape [OF m] s ne dg Some show ?thesis by simp
qed

lemma DURATION_CLEAN_RE_shape:
  assumes "DURATION_CLEAN_RE s = Some (g1, g2, g3)"
  shows "\<exists>rest. at_dollar rest
         \<and> s = (case g1 of None \<Rightarrow> [] | Some d \<Rightarrow> d @ [CHR '':'']) @ g2 @ CHR '':'' # g3 @ rest
         \<and> (\<forall>d. g1 = Some d \<longrightarrow> d \<noteq> [] \<and> (\<forall>c \<in> set d. is_digit c))
         \<and> g2 \<noteq> [] \<and> (\<forall>c \<in> set g2. is_digit c)
         \<and> g3 \<noteq> [] \<and> (\<forall>c \<in> set g3. is_digit c)"
proof -
  from assms obtain rest where t: "time_core s = Some (g1, g2, g3, rest)" and a: "at_dollar rest"
    by (auto simp: DURATION_CLEAN_RE_def split: option.splits if_splits)
  from time_core_shape [OF t] a show ?thesis by blast
qed

lemma digits_no_colon: "\<forall>c \<in> set d. is_digit c \<Longrightarrow> CHR '':'' \<notin> set d"
  by (auto dest: digit_not_special)

lemma fmt_hms_last_not_newline: "fmt02 s \<noteq> g @ [CHR 0x0A]"
proof
  assume "fmt02 s = g @ [CHR 0x0A]"
  then have "CHR 0x0A \<in> set (fmt02 s)" by simp
  with fmt02_chars [of s] have "num_char (CHR 0x0A)" by blast
  then show False by (simp add: num_char_def is_digit_def)
qed

lemma DURATION_CLEAN_RE_fmt_hms:
  assumes "DURATION_CLEAN_RE (fmt_hms h m s) = Some (g1, g2, g3)"
  shows "g1 = Some (py_str h) \<and> g2 = fmt02 m \<and> g3 = fmt02 s
         \<and> group_hours g1 = h \<and> int (digits_value g2) = m \<and> int (digits_value g3) = s"
proof -
  from DURATION_CLEAN_RE_shape [OF assms] obtain rest where a: "at_dollar rest"
    and sh: "fmt_hms h m s = (case g1 of None \<Rightarrow> [] | Some d \<Rightarrow> d @ [CHR '':'']) @ g2 @ CHR '':'' # g3 @ rest"
    and g1: "\<forall>d. g1 = Some d \<longrightarrow> d \<noteq> [] \<and> (\<forall>c \<in> set d. is_digit c)"
    and g2: "g2 \<noteq> []" "\<forall>c \<in> set g2. is_digit c"
    and g3: "g3 \<noteq> []" "\<forall>c \<in> set g3. is_digit c"
    by blast
  from a have rc: "CHR '':'' \<notin> set rest" by (auto simp: at_dollar_def)
  with g3 have g3r: "CHR '':'' \<notin> set (g3 @ rest)" by (auto dest: digit_not_special)
  from g2 have g2c: "CHR '':'' \<notin> set g2" by (auto dest: digit_not_special)
  have lhs: "split_on CHR '':'' (fmt_hms h m s) = [py_str h, fmt02 m, fmt02 s]"
    by (rule split_fmt_hms)
  show ?thesis
  proof (cases g1)
    case None
    with sh have "fmt_hms h m s = g2 @ CHR '':'' # (g3 @ rest)" by simp
    then have "split_on CHR '':'' (fmt_hms h m s) = [g2, g3 @ rest]"
      by (simp add: split_on_append [OF g2c] split_on_notin [OF g3r])
    with lhs show ?thesis by simp
  next
    case (Some d)
    with g1 have d: "d \<noteq> []" "\<forall>c \<in> set d. is_digit c" by auto
    then have dc: "CHR '':'' \<notin> set d" by (auto dest: digit_not_special)
    from Some sh have "fmt_hms h m s = d @ CHR '':'' # (g2 @ CHR '':'' # (g3 @ rest))" by simp
    then have "split_on CHR '':'' (fmt_hms h m s) = [d, g2, g3 @ rest]"
      by (simp add: split_on_append [OF dc] split_on_append [OF g2c] split_on_notin [OF g3r])
    with lhs have e: "d = py_str h" "g2 = fmt02 m" "fmt02 s = g3 @ rest" by simp_all
    from a e(3) fmt_hms_last_not_newline [of s g3] have r: "rest = []"
      by (auto simp: at_dollar_def)
    with e have e3: "g3 = fmt02 s" by simp
    have "py_int d = Some (int (digits_value d))" using d by (rule py_int_digits)
    with e(1) have v1: "int (digits_value d) = h" by (simp add: py_int_py_str)
    have "py_int g2 = Some (int (digits_value g2))" using g2 by (rule py_int_digits)
    with e(2) have v2: "int (digits_value g2) = m" by (simp add: py_int_fmt02)
    have "py_int g3 = Some (int (digits_value g3))" using g3 by (rule py_int_digits)
    with e3 have v3: "int (digits_value g3) = s" by (simp add: py_int_fmt02)
    from Some e e3 v1 v2 v3 show ?thesis by (simp add: group_hours_def)
  qed
qed

lemma fix_clean_fmt_hms: "fix_clean (fmt_hms h m s) = fmt_hms h m s"
proof -
  have a: "py_strip (fmt_hms h m s) = fmt_hms h m s"
    by (rule py_strip_id) (simp add: fmt_hms_no_space)
  have "\<forall>c \<in> set (fmt_hms h m s). c \<noteq> CHR ''(''"
    using fmt_hms_no_paren [of h m s] by metis
  then have tw: "takeWhile (\<lambda>c. c \<noteq> CHR ''('') (fmt_hms h m s) = fmt_hms h m s"
    by (simp only: takeWhile_eq_all_conv)
  show ?thesis by (simp only: fix_clean_def a tw)
qed

lemma fix_normalize_fmt_hms:
  assumes "0 \<le> m" "m < 60"
  shows "fix_normalize_time (fmt_hms h m s) = (fmt_hms h m s, False)"
proof (cases "DURATION_CLEAN_RE (fmt_hms h m s)")
  case None
  then show ?thesis
    by (simp add: fix_normalize_time_def fix_clean_fmt_hms split_fmt_hms)
next
  case (Some g)
  obtain g1 g2 g3 where g: "g = (g1, g2, g3)" by (cases g) auto
  with Some have re: "DURATION_CLEAN_RE (fmt_hms h m s) = Some (g1, g2, g3)" by simp
  from DURATION_CLEAN_RE_fmt_hms [OF re]
  have v: "group_hours g1 = h" "int (digits_value g2) = m" "int (digits_value g3) = s"
    by blast+
  from assms show ?thesis
    by (simp add: fix_normalize_time_def fix_clean_fmt_hms Let_def re v)
qed

lemma fix_normalize_shape:
  "fst (fix_normalize_time s) = s \<or>
   (\<exists>h m sec. 0 \<le> m \<and> m < 60 \<and> fst (fix_normalize_time s) = fmt_hms h m sec)"
proof (cases "DURATION_CLEAN_RE (fix_clean s)")
  case (Some g)
  obtain g1 g2 g3 where g: "g = (g1, g2, g3)" by (cases g) auto
  define m where "m = int (digits_value g2)"
  define m' where "m' = (if m \<ge> 60 then m mod 60 else m)"
  have b: "0 \<le> m'" "m' < 60" by (auto simp: m'_def m_def)
  from Some g have "\<exists>h sec. fst (fix_normalize_time s) = fmt_hms h m' sec"
    by (auto simp add: fix_normalize_time_def Let_def m'_def m_def)
  with b show ?thesis by blast
next
  case None
  show ?thesis
  proof (cases "\<exists>p0 p1 mi se. split_on CHR '':'' (fix_clean s) = [p0, p1] \<and> py_int p0 = Some mi \<and> py_int p1 = Some se")
    case True
    then obtain p0 p1 mi se where p: "split_on CHR '':'' (fix_clean s) = [p0, p1]"
      "py_int p0 = Some mi" "py_int p1 = Some se" by blast
    with None have "fst (fix_normalize_time s) = fmt_hms (mi div 60) (mi mod 60) se"
      by (simp add: fix_normalize_time_def Let_def)
    moreover have "0 \<le> mi mod 60" "mi mod 60 < 60" by simp_all
    ultimately show ?thesis by blast
  next
    case False
    with None have "fix_normalize_time s = (s, False)"
      by (auto simp: fix_normalize_time_def Let_def split: list.splits option.splits)
    then show ?thesis by simp
  qed
qed

lemma fix_normalize_idem:
  "fst (fix_normalize_time (fst (fix_normalize_time s))) = fst (fix_normalize_time s)"
proof -
  from fix_normalize_shape [of s] show ?thesis
  proof
    assume "fst (fix_normalize_time s) = s"
    then show ?thesis by simp
  next
    assume "\<exists>h m sec. 0 \<le> m \<and> m < 60 \<and> fst (fix_normalize_time s) = fmt_hms h m sec"
    then obtain h m sec where b: "0 \<le> m" "m < 60"
      and e: "fst (fix_normalize_time s) = fmt_hms h m sec" by blast
    from fix_normalize_fmt_hms [OF b] e show ?thesis by simp
  qed
qed

lemma fix_to_seconds_normalized:
  "fix_to_seconds (fst (fix_normalize_time s)) = fix_to_seconds s"
  by (simp add: fix_to_seconds_def fix_normalize_idem)

lemma enh_seconds_normalized:
  "(case enh_normalize_time s of Inl e \<Rightarrow> Inl e | Inr t \<Rightarrow> enh_time_to_seconds t) = enh_time_to_seconds s"
proof (cases "enh_normalize_time s")
  case (Inl e)
  then show ?thesis by (simp add: enh_time_to_seconds_def)
next
  case (Inr t)
  show ?thesis
  proof (cases "t = s")
    case True
    with Inr show ?thesis by simp
  next
    case False
    with Inr obtain h m sec where t: "t = fmt_hms h m sec"
      by (auto simp: enh_normalize_time_def Let_def split: list.splits option.splits)
    have "enh_time_to_seconds s = Inr (h * 3600 + m * 60 + sec)"
      using Inr t by (simp add: enh_time_to_seconds_def split_fmt_hms py_int_py_str py_int_fmt02)
    with Inr t show ?thesis by (simp add: enh_time_to_seconds_fmt_hms)
  qed
qed

text \<open>
  Claim C3 (amended). Normalisation preserves the seconds value in both fixers. In
  \<open>fix_timestamps_enhanced.py\<close> a string of the shape \<open>h:m:s\<close> has its seconds rolled
  into the minutes and its minutes rolled into the hours. A canonical \<open>H:MM:SS\<close> string is
  returned unchanged by both, with the change flag of \<open>fix_timestamps.py\<close> false.
\<close>

theorem normalize_preserves_seconds:
  "fix_to_seconds (fst (fix_normalize_time t)) = fix_to_seconds t
   \<and> (case enh_normalize_time t of Inl e \<Rightarrow> Inl e | Inr u \<Rightarrow> enh_time_to_seconds u)
       = enh_time_to_seconds t
   \<and> enh_normalize_time (fmt_hms h m s)
       = Inr (fmt_hms (h + (m + s div 60) div 60) ((m + s div 60) mod 60) (s mod 60))
   \<and> (0 \<le> h \<and> 0 \<le> m \<and> m < 60 \<and> 0 \<le> s \<and> s < 60 \<longrightarrow>
        fix_normalize_time (fmt_hms h m s) = (fmt_hms h m s, False)
        \<and> enh_normalize_time (fmt_hms h m s) = Inr (fmt_hms h m s))"
  by (simp add: fix_to_seconds_normalized enh_seconds_normalized enh_normalize_fmt_hms
        fix_normalize_fmt_hms)

theorem normalize_preserves_seconds_witness:
  "fix_normalize_time ''1:05:07'' = (''1:05:07'', False)
   \<and> enh_normalize_time ''1:05:07'' = Inr ''1:05:07''
   \<and> enh_normalize_time ''0:75:90'' = Inr ''1:16:30''"
proof -
  have a: "fmt_hms 1 5 7 = ''1:05:07''" by code_simp
  have b: "fmt_hms 0 75 90 = ''0:75:90''" by code_simp
  have c: "fmt_hms (0 + (75 + 90 div 60) div 60) ((75 + 90 div 60) mod 60) (90 mod 60) = ''1:16:30''"
    by code_simp
  from normalize_preserves_seconds [of "''1:05:07''" 1 5 7]
       normalize_preserves_seconds [of "''1:05:07''" 0 75 90] a b c
  show ?thesis by simp
qed

theorem normalize_leaves_seconds_overflow:
  "fix_normalize_time ''0:05:75'' = (''0:05:75'', False)
   \<and> fix_to_seconds ''0:05:75'' = Some 375"
  by code_simp

lemma enh_normalize_mss_keeps_seconds:
  "enh_normalize_time ''5:75'' = Inr ''0:05:75''"
  by code_simp

lemma fix_normalize_mss_keeps_seconds:
  "fix_normalize_time ''5:75'' = (''0:05:75'', True)"
  by code_simp


section \<open>The quality heuristics of the audit and of the fixer\<close>

text \<open>
  Claim C7 (amended). The description check of the enhanced audit and the one of the fixer
  are the same classification, and every label the enhanced audit flags is weak for the
  fixer.
\<close>

theorem quality_audit_fix:
  "(check_description_quality desc label \<longleftrightarrow> \<not> is_weak_description desc label)
   \<and> (\<not> check_label_quality label \<longrightarrow> is_weak_label label)"
  by (auto simp: check_description_quality_def is_weak_description_def
        check_label_quality_def is_weak_label_def Let_def split: if_splits)

theorem quality_audit_fix_witness:
  "\<not> check_label_quality ''overview'' \<and> is_weak_label ''overview''"
proof -
  have "\<not> check_label_quality ''overview''" by code_simp
  with quality_audit_fix [of "''''" "''overview''"] show ?thesis by simp
qed

theorem audit_flags_label_fixer_keeps:
  "audit_label_vague default_config
     \<lparr>ts_time = ''0:00:10'', ts_label = ''Course Overview'',
      ts_description = Some ''Walk through the syllabus and weekly project schedule''\<rparr>
   \<and> \<not> is_weak_label ''Course Overview''
   \<and> \<not> is_weak_description ''Walk through the syllabus and weekly project schedule''
         ''Course Overview''"
  by code_simp

lemma fixer_flags_label_enhanced_audit_keeps:
  "is_weak_label ''overview recap'' \<and> check_label_quality ''overview recap''"
  by code_simp

section \<open>The verdict of the audits\<close>




lemma enh_times_s_fst': "map fst (enh_times_s tss) = List.map_filter (\<lambda>ts. enh_audit_to_seconds (ts_time ts)) tss"
  by (induction tss) (auto simp: enh_times_s_def List.map_filter_def)









lemma enh_audit_to_seconds_nonneg: "enh_audit_to_seconds t = Some s \<Longrightarrow> 0 \<le> s"
  by (auto simp: enh_audit_to_seconds_def groups_seconds_def group_hours_def split: option.splits prod.splits)

lemma lesson_seconds_nonneg: "s \<in> set (lesson_seconds l) \<Longrightarrow> 0 \<le> s"
  by (auto simp: lesson_seconds_def List.map_filter_def dest: enh_audit_to_seconds_nonneg)























lemma audit_lesson_zero_duration:
  "ar_overall (audit_lesson (demo_lesson ''0:00:00'' [demo_entry ''0:05:00''])) = ''pass''
   \<and> \<not> range_check (demo_lesson ''0:00:00'' [demo_entry ''0:05:00''])
   \<and> ar_out_of_range (audit_basic default_config (demo_lesson ''0:00:00'' [demo_entry ''0:05:00'']))
       = [''0:05:00'']"
  by code_simp

section \<open>The enhanced fixer: order and range of the result\<close>

lemma enh_round_trip_int: "enh_time_to_seconds (seconds_to_time n) = Inr n"
  using sec_decompose [of n] by (simp add: seconds_to_time_def enh_time_to_seconds_fmt_hms)

lemma with_seconds_paired: "with_seconds tss = Inr ps \<Longrightarrow> paired ps \<and> map snd ps = tss"
proof (induction tss arbitrary: ps)
  case Nil
  then show ?case by (simp add: paired_def)
next
  case (Cons ts rest)
  from Cons.prems obtain s ps' where s: "enh_time_to_seconds (ts_time ts) = Inr s"
    and r: "with_seconds rest = Inr ps'" and p: "ps = (s, ts) # ps'"
    by (auto split: sum.splits)
  from Cons.IH [OF r] s p show ?case by (simp add: paired_def)
qed

lemma merge_close_keys:
  "merge_close c ps = Inr (out, log) \<Longrightarrow>
     set (map time_key out) \<subseteq> set (map time_key (opt_cons c ps))"
proof (induction c ps arbitrary: out log rule: merge_close.induct)
  case 1
  then show ?case by simp
next
  case (2 cur)
  then show ?case by (auto simp: opt_cons_def)
next
  case (3 p' rest)
  then show ?case by (simp add: opt_cons_def)
next
  case (4 current_seconds current s ts rest)
  show ?case
  proof (cases "s - current_seconds < MIN_SEPARATION_S")
    case True
    with "4.prems" obtain d1 d2 where d: "ts_description current = Some d1" "ts_description ts = Some d2"
      by (auto split: option.splits)
    let ?c' = "current\<lparr>ts_description := Some (d1 @ ''; '' @ d2)\<rparr>"
    from True d "4.prems" obtain log' where m: "merge_close (Some (current_seconds, ?c')) rest = Inr (out, log')"
      by (auto split: sum.splits)
    have "set (map time_key out) \<subseteq> set (map time_key (opt_cons (Some (current_seconds, ?c')) rest))"
      by (rule "4.IH"(1) [OF True refl d m])
    also have "\<dots> \<subseteq> set (map time_key (opt_cons (Some (current_seconds, current)) ((s, ts) # rest)))"
      by (auto simp: opt_cons_def time_key_def)
    finally show ?thesis .
  next
    case False
    with "4.prems" obtain out' where m: "merge_close (Some (s, ts)) rest = Inr (out', log)"
      and o: "out = (current_seconds, current) # out'"
      by (auto split: sum.splits)
    have "set (map time_key out') \<subseteq> set (map time_key (opt_cons (Some (s, ts)) rest))"
      by (rule "4.IH"(2) [OF False m])
    with o show ?thesis by (auto simp: opt_cons_def)
  qed
qed

lemma time_key_fst: "set (map time_key xs) \<subseteq> set (map time_key ys) \<Longrightarrow> p \<in> set xs \<Longrightarrow> fst p \<in> fst ` set ys"
proof -
  assume a: "set (map time_key xs) \<subseteq> set (map time_key ys)" and p: "p \<in> set xs"
  then have "time_key p \<in> set (map time_key ys)" by auto
  then obtain q where "q \<in> set ys" "time_key q = time_key p" by auto
  then show ?thesis by (auto simp: time_key_def intro: rev_image_eqI)
qed

lemma merge_close_sorted:
  "merge_close c ps = Inr (out, log) \<Longrightarrow>
     sorted (map fst (opt_cons c ps)) \<Longrightarrow> sorted (map fst out)"
proof (induction c ps arbitrary: out log rule: merge_close.induct)
  case 1
  then show ?case by simp
next
  case (2 cur)
  then show ?case by auto
next
  case (3 p' rest)
  then show ?case by (simp add: opt_cons_def)
next
  case (4 current_seconds current s ts rest)
  show ?case
  proof (cases "s - current_seconds < MIN_SEPARATION_S")
    case True
    with "4.prems"(1) obtain d1 d2 where d: "ts_description current = Some d1" "ts_description ts = Some d2"
      by (auto split: option.splits)
    let ?c' = "current\<lparr>ts_description := Some (d1 @ ''; '' @ d2)\<rparr>"
    from True d "4.prems"(1) obtain log' where m: "merge_close (Some (current_seconds, ?c')) rest = Inr (out, log')"
      by (auto split: sum.splits)
    from "4.prems"(2) have "sorted (map fst (opt_cons (Some (current_seconds, ?c')) rest))"
      by (auto simp: opt_cons_def)
    with "4.IH"(1) [OF True refl d m] show ?thesis by simp
  next
    case False
    with "4.prems"(1) obtain out' where m: "merge_close (Some (s, ts)) rest = Inr (out', log)"
      and o: "out = (current_seconds, current) # out'"
      by (auto split: sum.splits)
    from "4.prems"(2) have s1: "sorted (map fst (opt_cons (Some (s, ts)) rest))"
      by (simp add: opt_cons_def)
    from "4.IH"(2) [OF False m] s1 have so: "sorted (map fst out')" by simp
    have "\<forall>p \<in> set out'. current_seconds \<le> fst p"
    proof
      fix p assume "p \<in> set out'"
      from time_key_fst [OF merge_close_keys [OF m] this]
      have "fst p \<in> fst ` set ((s, ts) # rest)" by (simp add: opt_cons_def)
      with "4.prems"(2) show "current_seconds \<le> fst p" by (auto simp: opt_cons_def)
    qed
    with so o show ?thesis by auto
  qed
qed

lemma enh_rewrite_times:
  "map ts_time (fst (enh_rewrite ttl kw i ex tss)) = map ts_time tss"
  by (induction tss arbitrary: i ex) (simp_all add: Let_def split_beta)


lemma enh_normalize_times_seconds:
  "enh_normalize_times tss0 = Inr (tss, log) \<Longrightarrow> b \<in> set tss \<Longrightarrow>
     \<exists>a \<in> set tss0. enh_time_to_seconds (ts_time b) = enh_time_to_seconds (ts_time a)"
proof (induction tss0 arbitrary: tss log)
  case Nil
  then show ?case by simp
next
  case (Cons ts rest)
  from Cons.prems(1) obtain t tss' log' where t: "enh_normalize_time (ts_time ts) = Inr t"
    and r: "enh_normalize_times rest = Inr (tss', log')" and e: "tss = ts\<lparr>ts_time := t\<rparr> # tss'"
    by (auto split: sum.splits)
  show ?case
  proof (cases "b = ts\<lparr>ts_time := t\<rparr>")
    case True
    from enh_seconds_normalized [of "ts_time ts"] t
    have "enh_time_to_seconds t = enh_time_to_seconds (ts_time ts)" by simp
    with True show ?thesis by simp
  next
    case False
    with e Cons.prems(2) have "b \<in> set tss'" by simp
    from Cons.IH [OF r this] show ?thesis by auto
  qed
qed

lemma adjacent_sorted:
  "sorted (map fst xs) \<Longrightarrow> (a, b) \<in> set (adjacent xs) \<Longrightarrow>
     a \<in> set xs \<and> b \<in> set xs \<and> fst a \<le> fst b"
  by (induction xs rule: induct_list012) (auto simp: adjacent_def)

lemma gaps_to_fill_between:
  assumes "sorted (map fst ps)" "m \<in> set (gaps_to_fill D ps)"
  shows "\<exists>a \<in> set ps. \<exists>b \<in> set ps. fst a \<le> m \<and> m \<le> fst b"
proof -
  from assms(2) obtain a b where ab: "(a, b) \<in> set (adjacent ps)"
    and m: "m = fst a + (fst b - fst a) div 2"
    by (auto simp: gaps_to_fill_def)
  from adjacent_sorted [OF assms(1) ab] have s: "a \<in> set ps" "b \<in> set ps" "fst a \<le> fst b"
    by simp_all
  from s(3) have "0 \<le> (fst b - fst a) div 2" "(fst b - fst a) div 2 \<le> fst b - fst a"
    by simp_all
  with m have "fst a \<le> m" "m \<le> fst b" by simp_all
  with s show ?thesis by blast
qed

lemma fill_gaps_props:
  assumes so: "sorted (map fst ps)" and pa: "paired ps" and up: "\<forall>p \<in> set ps. fst p < D"
  shows "sorted (map fst (fst (fill_gaps D ps)))
     \<and> paired (fst (fill_gaps D ps))
     \<and> (\<forall>p \<in> set (fst (fill_gaps D ps)). fst p < D \<and> (\<exists>q \<in> set ps. fst q \<le> fst p))"
proof (cases "length ps > 1")
  case False
  with so pa up show ?thesis by (auto simp: fill_gaps_def)
next
  case True
  let ?new = "map (\<lambda>m. (m, placeholder m)) (gaps_to_fill D ps)"
  from True have f: "fst (fill_gaps D ps) = sort_key fst (ps @ ?new)" by (simp add: fill_gaps_def)
  have a: "sorted (map fst (sort_key fst (ps @ ?new)))" by (rule sorted_sort_key)
  have n: "\<forall>p \<in> set ?new. enh_time_to_seconds (ts_time (snd p)) = Inr (fst p)
             \<and> fst p < D \<and> (\<exists>q \<in> set ps. fst q \<le> fst p)"
  proof
    fix p assume "p \<in> set ?new"
    then obtain m where m: "m \<in> set (gaps_to_fill D ps)" and p: "p = (m, placeholder m)" by auto
    from gaps_to_fill_between [OF so m] obtain x y where xy: "x \<in> set ps" "y \<in> set ps"
      "fst x \<le> m" "m \<le> fst y" by blast
    from up xy have "m < D" by fastforce
    with xy p show "enh_time_to_seconds (ts_time (snd p)) = Inr (fst p)
             \<and> fst p < D \<and> (\<exists>q \<in> set ps. fst q \<le> fst p)"
      by (auto simp: placeholder_def enh_round_trip_int)
  qed
  have o: "\<forall>p \<in> set ps. enh_time_to_seconds (ts_time (snd p)) = Inr (fst p)
             \<and> fst p < D \<and> (\<exists>q \<in> set ps. fst q \<le> fst p)"
    using pa up by (auto simp: paired_def)
  from n o have all: "\<forall>p \<in> set (ps @ ?new). enh_time_to_seconds (ts_time (snd p)) = Inr (fst p)
             \<and> fst p < D \<and> (\<exists>q \<in> set ps. fst q \<le> fst p)"
    by (simp only: set_append Un_iff) blast
  have st: "set (sort_key fst (ps @ ?new)) = set (ps @ ?new)" by simp
  from a all show ?thesis unfolding f paired_def st by blast
qed

lemma enh_fix_core:
  assumes "fix_lesson_timestamps keywords l = Inr r"
  shows "\<exists>d D filled.
           enh_normalize_time (duration l) = Inr d \<and> enh_time_to_seconds d = Inr D
           \<and> map ts_time (er_updated_timestamps r) = map (\<lambda>p. ts_time (snd p)) filled
           \<and> paired filled \<and> sorted (map fst filled)
           \<and> (\<forall>p \<in> set filled. fst p < D
                 \<and> (\<exists>t0 \<in> set (timestamps l). \<exists>s0. enh_time_to_seconds (ts_time t0) = Inr s0 \<and> s0 \<le> fst p))"
proof -
  from assms obtain d D tss tlog ps merged mlog where
      d: "enh_normalize_time (duration l) = Inr d" and D: "enh_time_to_seconds d = Inr D"
      and nt: "enh_normalize_times (timestamps l) = Inr (tss, tlog)"
      and ws: "with_seconds tss = Inr ps"
      and mc: "merge_close None (sort_key fst (filter (\<lambda>(s, ts). s < D) ps)) = Inr (merged, mlog)"
      and up: "er_updated_timestamps r
                 = fst (enh_rewrite (title l) keywords 0 [] (map snd (fst (fill_gaps D merged))))"
    by (auto simp: fix_lesson_timestamps_def split: sum.splits prod.splits)
  let ?S = "sort_key fst (filter (\<lambda>(s, ts). s < D) ps)"
  from with_seconds_paired [OF ws] have pp: "paired ps" and sp: "map snd ps = tss" by simp_all
  have setS: "set ?S \<subseteq> set ps" by auto
  have ltS: "\<forall>p \<in> set ?S. fst p < D" by auto
  have sortedS: "sorted (map fst ?S)" by (rule sorted_sort_key)
  from merge_close_sorted [OF mc] sortedS have sm: "sorted (map fst merged)"
    by (simp add: opt_cons_def)
  have km: "\<forall>p \<in> set merged. \<exists>q \<in> set ps. fst q = fst p \<and> ts_time (snd q) = ts_time (snd p) \<and> fst p < D"
  proof
    fix p assume "p \<in> set merged"
    then have "time_key p \<in> set (map time_key merged)" by simp
    with merge_close_keys [OF mc] have "time_key p \<in> set (map time_key ?S)"
      by (auto simp: opt_cons_def)
    then obtain q where q: "q \<in> set ?S" "time_key q = time_key p" by auto
    with setS ltS show "\<exists>q \<in> set ps. fst q = fst p \<and> ts_time (snd q) = ts_time (snd p) \<and> fst p < D"
      by (auto simp: time_key_def)
  qed
  from km pp have pm: "paired merged" by (fastforce simp: paired_def)
  from km have lm: "\<forall>p \<in> set merged. fst p < D" by blast
  have low: "\<forall>p \<in> set merged. \<exists>t0 \<in> set (timestamps l). enh_time_to_seconds (ts_time t0) = Inr (fst p)"
  proof
    fix p assume "p \<in> set merged"
    with km obtain q where q: "q \<in> set ps" "fst q = fst p" by blast
    with pp have e: "enh_time_to_seconds (ts_time (snd q)) = Inr (fst p)" by (simp add: paired_def)
    from q(1) sp have "snd q \<in> set tss" by force
    from enh_normalize_times_seconds [OF nt this] e
    show "\<exists>t0 \<in> set (timestamps l). enh_time_to_seconds (ts_time t0) = Inr (fst p)" by auto
  qed
  let ?F = "fst (fill_gaps D merged)"
  from fill_gaps_props [OF sm pm lm] have fs: "sorted (map fst ?F)" and fp: "paired ?F"
    and fl: "\<forall>p \<in> set ?F. fst p < D \<and> (\<exists>q \<in> set merged. fst q \<le> fst p)" by blast+
  have fl2: "\<forall>p \<in> set ?F. fst p < D
       \<and> (\<exists>t0 \<in> set (timestamps l). \<exists>s0. enh_time_to_seconds (ts_time t0) = Inr s0 \<and> s0 \<le> fst p)"
  proof
    fix p assume p: "p \<in> set ?F"
    with fl obtain q where q: "q \<in> set merged" "fst q \<le> fst p" by blast
    from low q(1) obtain t0 where "t0 \<in> set (timestamps l)" "enh_time_to_seconds (ts_time t0) = Inr (fst q)"
      by blast
    with q(2) fl p show "fst p < D
       \<and> (\<exists>t0 \<in> set (timestamps l). \<exists>s0. enh_time_to_seconds (ts_time t0) = Inr s0 \<and> s0 \<le> fst p)"
      by blast
  qed
  have "map ts_time (er_updated_timestamps r) = map (\<lambda>p. ts_time (snd p)) ?F"
    unfolding up enh_rewrite_times by simp
  with d D fp fs fl2 show ?thesis by blast
qed

lemma paired_seconds:
  "paired ps \<Longrightarrow> map (\<lambda>p. enh_time_to_seconds (ts_time (snd p))) ps = map Inr (map fst ps)"
  by (induction ps) (auto simp: paired_def)

lemma map_time_transfer:
  assumes "map ts_time xs = map (\<lambda>p. ts_time (snd p)) ps"
  shows "map (\<lambda>ts. enh_time_to_seconds (ts_time ts)) xs
         = map (\<lambda>p. enh_time_to_seconds (ts_time (snd p))) ps"
proof -
  have "map (\<lambda>ts. enh_time_to_seconds (ts_time ts)) xs = map enh_time_to_seconds (map ts_time xs)"
    by simp
  also have "\<dots> = map enh_time_to_seconds (map (\<lambda>p. ts_time (snd p)) ps)"
    by (simp only: assms)
  finally show ?thesis by simp
qed

lemma enh_run_reorders:
  "fix_lesson_timestamps [] (demo_lesson ''0:01:20'' [demo_entry ''0:00:40'', demo_entry2 ''0:00:20''])
   = Inr \<lparr>er_lesson_id = ''w1-l1'',
          er_updated_timestamps = [demo_entry2 ''0:00:20'', demo_entry ''0:00:40''],
          er_changes_summary = []\<rparr>"
  by code_simp

lemma process_lesson_run_unordered:
  "process_lesson (demo_lesson ''0:00:30'' [demo_entry ''0:00:50'', demo_entry2 ''0:00:10'']) False
   = (\<lparr>fr_lesson_id = ''w1-l1'', fr_duration_changed = False, fr_normalized_times = [],
       fr_removed_dense_pairs = [], fr_rewritten = []\<rparr>,
      demo_lesson ''0:00:30'' [demo_entry ''0:00:50'', demo_entry2 ''0:00:10''])"
  by code_simp

lemma fix_seconds_examples:
  "fix_to_seconds ''0:00:50'' = Some 50" "fix_to_seconds ''0:00:10'' = Some 10"
  "fix_to_seconds ''0:00:30'' = Some 30"
  by code_simp+

lemma enh_seconds_examples:
  "enh_time_to_seconds ''0:00:40'' = Inr 40" "enh_time_to_seconds ''0:00:20'' = Inr 20"
  "enh_normalize_time ''0:01:20'' = Inr ''0:01:20''" "enh_time_to_seconds ''0:01:20'' = Inr 80"
  by code_simp+

text \<open>
  Claim C5 (amended). Whenever \<open>fix_lesson_timestamps\<close> of \<open>fix_timestamps_enhanced.py\<close>
  returns, the list it returns is sorted non-decreasing in the seconds value of its times.
\<close>

theorem enh_repair_sorted:
  assumes "fix_lesson_timestamps keywords l = Inr r"
  shows "\<exists>secs. map (\<lambda>ts. enh_time_to_seconds (ts_time ts)) (er_updated_timestamps r) = map Inr secs
            \<and> sorted secs"
proof -
  from enh_fix_core [OF assms] obtain filled where
    m: "map ts_time (er_updated_timestamps r) = map (\<lambda>p. ts_time (snd p)) filled"
    and p: "paired filled" and s: "sorted (map fst filled)" by blast
  from map_time_transfer [OF m] paired_seconds [OF p]
  have "map (\<lambda>ts. enh_time_to_seconds (ts_time ts)) (er_updated_timestamps r)
          = map Inr (map fst filled)" by (simp only:)
  with s show ?thesis by blast
qed

theorem enh_repair_sorted_witness:
  "\<exists>r. fix_lesson_timestamps [] (demo_lesson ''0:01:20'' [demo_entry ''0:00:40'', demo_entry2 ''0:00:20'']) = Inr r
      \<and> map ts_time (er_updated_timestamps r) = [''0:00:20'', ''0:00:40'']
      \<and> (\<exists>secs. map (\<lambda>ts. enh_time_to_seconds (ts_time ts)) (er_updated_timestamps r) = map Inr secs
            \<and> sorted secs)"
proof -
  let ?r = "\<lparr>er_lesson_id = ''w1-l1'',
          er_updated_timestamps = [demo_entry2 ''0:00:20'', demo_entry ''0:00:40''],
          er_changes_summary = []\<rparr>"
  have m: "map ts_time (er_updated_timestamps ?r) = [''0:00:20'', ''0:00:40'']"
    by (simp add: demo_entry_def demo_entry2_def)
  from enh_repair_sorted [OF enh_run_reorders]
  have s: "\<exists>secs. map (\<lambda>ts. enh_time_to_seconds (ts_time ts)) (er_updated_timestamps ?r) = map Inr secs
            \<and> sorted secs" .
  show ?thesis
    by (rule exI [of _ ?r]) (intro conjI, rule enh_run_reorders, rule m, rule s)
qed

text \<open>
  \<open>process_lesson\<close> of \<open>fix_timestamps.py\<close> has no sorting step: a lesson with the times
  \<open>0:00:50\<close>, \<open>0:00:10\<close> in that order keeps them in that order.
\<close>

theorem process_lesson_keeps_order:
  "map ts_time (timestamps (snd (process_lesson
      (demo_lesson ''0:00:30'' [demo_entry ''0:00:50'', demo_entry2 ''0:00:10'']) False)))
     = [''0:00:50'', ''0:00:10'']
   \<and> fix_to_seconds ''0:00:50'' = Some 50 \<and> fix_to_seconds ''0:00:10'' = Some 10"
  unfolding process_lesson_run_unordered snd_conv
  by (simp add: fix_seconds_examples demo_lesson_def demo_entry_def demo_entry2_def)

text \<open>
  Claim C4 (amended). Whenever \<open>fix_lesson_timestamps\<close> of \<open>fix_timestamps_enhanced.py\<close>
  returns, every entry of the list it returns has a seconds value of at most the seconds
  of the normalised duration, and a non-negative one when every entry of the input has.
\<close>

theorem enh_repair_in_range:
  assumes "fix_lesson_timestamps keywords l = Inr r"
  shows "\<exists>d D. enh_normalize_time (duration l) = Inr d \<and> enh_time_to_seconds d = Inr D
           \<and> (\<forall>ts \<in> set (er_updated_timestamps r).
                 \<exists>s. enh_time_to_seconds (ts_time ts) = Inr s \<and> s \<le> D
                   \<and> ((\<forall>t0 \<in> set (timestamps l). \<forall>s0. enh_time_to_seconds (ts_time t0) = Inr s0 \<longrightarrow> 0 \<le> s0)
                        \<longrightarrow> 0 \<le> s))"
proof -
  from enh_fix_core [OF assms] obtain d D filled where
    d: "enh_normalize_time (duration l) = Inr d" "enh_time_to_seconds d = Inr D"
    and m: "map ts_time (er_updated_timestamps r) = map (\<lambda>p. ts_time (snd p)) filled"
    and p: "paired filled"
    and b: "\<forall>p \<in> set filled. fst p < D
                 \<and> (\<exists>t0 \<in> set (timestamps l). \<exists>s0. enh_time_to_seconds (ts_time t0) = Inr s0 \<and> s0 \<le> fst p)"
    by blast
  have "\<forall>ts \<in> set (er_updated_timestamps r).
                 \<exists>s. enh_time_to_seconds (ts_time ts) = Inr s \<and> s \<le> D
                   \<and> ((\<forall>t0 \<in> set (timestamps l). \<forall>s0. enh_time_to_seconds (ts_time t0) = Inr s0 \<longrightarrow> 0 \<le> s0)
                        \<longrightarrow> 0 \<le> s)"
  proof
    fix ts assume "ts \<in> set (er_updated_timestamps r)"
    then have "ts_time ts \<in> set (map ts_time (er_updated_timestamps r))" by simp
    with m obtain q where q: "q \<in> set filled" "ts_time (snd q) = ts_time ts" by auto
    from p q have e: "enh_time_to_seconds (ts_time ts) = Inr (fst q)" by (auto simp: paired_def)
    from b q(1) have lt: "fst q < D" and
      lo: "\<exists>t0 \<in> set (timestamps l). \<exists>s0. enh_time_to_seconds (ts_time t0) = Inr s0 \<and> s0 \<le> fst q"
      by blast+
    from lo have "(\<forall>t0 \<in> set (timestamps l). \<forall>s0. enh_time_to_seconds (ts_time t0) = Inr s0 \<longrightarrow> 0 \<le> s0)
                        \<longrightarrow> 0 \<le> fst q" by force
    with e lt show "\<exists>s. enh_time_to_seconds (ts_time ts) = Inr s \<and> s \<le> D
                   \<and> ((\<forall>t0 \<in> set (timestamps l). \<forall>s0. enh_time_to_seconds (ts_time t0) = Inr s0 \<longrightarrow> 0 \<le> s0)
                        \<longrightarrow> 0 \<le> s)" by auto
  qed
  with d show ?thesis by blast
qed

theorem enh_repair_in_range_witness:
  "\<exists>r. fix_lesson_timestamps [] (demo_lesson ''0:01:20'' [demo_entry ''0:00:40'', demo_entry2 ''0:00:20'']) = Inr r
      \<and> list_all (\<lambda>ts. \<exists>s. enh_time_to_seconds (ts_time ts) = Inr s \<and> 0 \<le> s \<and> s \<le> 80)
           (er_updated_timestamps r)"
proof -
  let ?l = "demo_lesson ''0:01:20'' [demo_entry ''0:00:40'', demo_entry2 ''0:00:20'']"
  let ?r = "\<lparr>er_lesson_id = ''w1-l1'',
          er_updated_timestamps = [demo_entry2 ''0:00:20'', demo_entry ''0:00:40''],
          er_changes_summary = []\<rparr>"
  have dur: "duration ?l = ''0:01:20''" by (simp add: demo_lesson_def)
  have nonneg: "\<forall>t0 \<in> set (timestamps ?l). \<forall>s0. enh_time_to_seconds (ts_time t0) = Inr s0 \<longrightarrow> 0 \<le> s0"
    by (simp add: demo_lesson_def demo_entry_def demo_entry2_def enh_seconds_examples)
  from enh_repair_in_range [OF enh_run_reorders] obtain d D where
    d: "enh_normalize_time (duration ?l) = Inr d" "enh_time_to_seconds d = Inr D"
    and b: "\<forall>ts \<in> set (er_updated_timestamps ?r).
                 \<exists>s. enh_time_to_seconds (ts_time ts) = Inr s \<and> s \<le> D
                   \<and> ((\<forall>t0 \<in> set (timestamps ?l). \<forall>s0. enh_time_to_seconds (ts_time t0) = Inr s0 \<longrightarrow> 0 \<le> s0)
                        \<longrightarrow> 0 \<le> s)"
    by blast
  from d(1) have "d = ''0:01:20''" unfolding dur by (simp add: enh_seconds_examples(3))
  with d(2) have "D = 80" by (simp add: enh_seconds_examples(4))
  have "\<forall>ts \<in> set (er_updated_timestamps ?r).
                 \<exists>s. enh_time_to_seconds (ts_time ts) = Inr s \<and> 0 \<le> s \<and> s \<le> 80"
  proof
    fix ts assume "ts \<in> set (er_updated_timestamps ?r)"
    with b obtain s where s: "enh_time_to_seconds (ts_time ts) = Inr s" "s \<le> D"
      "(\<forall>t0 \<in> set (timestamps ?l). \<forall>s0. enh_time_to_seconds (ts_time t0) = Inr s0 \<longrightarrow> 0 \<le> s0)
                        \<longrightarrow> 0 \<le> s"
      by (elim ballE exE conjE) (assumption, simp)
    from s(3) nonneg have "0 \<le> s" by (rule mp)
    with s(1,2) \<open>D = 80\<close> show "\<exists>s. enh_time_to_seconds (ts_time ts) = Inr s \<and> 0 \<le> s \<and> s \<le> 80"
      by (intro exI [of _ s]) simp
  qed
  then have "list_all (\<lambda>ts. \<exists>s. enh_time_to_seconds (ts_time ts) = Inr s \<and> 0 \<le> s \<and> s \<le> 80)
           (er_updated_timestamps ?r)"
    by (simp only: list_all_iff)
  with enh_run_reorders show ?thesis by (intro exI [of _ ?r] conjI)
qed

text \<open>
  \<open>process_lesson\<close> of \<open>fix_timestamps.py\<close> has no range step: with the duration
  \<open>0:00:30\<close> the entry at \<open>0:00:50\<close> stays in the lesson.
\<close>

theorem process_lesson_keeps_out_of_range:
  "map ts_time (timestamps (snd (process_lesson
      (demo_lesson ''0:00:30'' [demo_entry ''0:00:50'', demo_entry2 ''0:00:10'']) False)))
     = [''0:00:50'', ''0:00:10'']
   \<and> fix_to_seconds ''0:00:50'' = Some 50 \<and> fix_to_seconds ''0:00:30'' = Some 30"
  unfolding process_lesson_run_unordered snd_conv
  by (simp add: fix_seconds_examples demo_lesson_def demo_entry_def demo_entry2_def)

text \<open>
  The range step of \<open>fix_lesson_timestamps\<close> keeps the entries strictly below the
  duration, so an entry at the duration itself is dropped; nothing is logged for it. And
  \<open>main\<close> of \<open>fix_timestamps_enhanced.py\<close> replaces the list of a lesson only when a change
  was logged, so the entry is still in the lesson that is written.
\<close>

lemma enh_drops_entry_at_duration:
  "fix_lesson_timestamps [] (demo_lesson ''0:01:20'' [demo_entry ''0:01:05'', demo_entry2 ''0:01:20''])
   = Inr \<lparr>er_lesson_id = ''w1-l1'',
          er_updated_timestamps = [demo_entry ''0:01:05''],
          er_changes_summary = []\<rparr>"
  by code_simp

lemma enh_apply_keeps_unlogged:
  "enh_apply False (demo_lesson ''0:01:20'' [demo_entry ''0:01:05'', demo_entry2 ''0:01:20''])
     \<lparr>er_lesson_id = ''w1-l1'', er_updated_timestamps = [demo_entry ''0:01:05''],
      er_changes_summary = []\<rparr>
   = Inr (demo_lesson ''0:01:20'' [demo_entry ''0:01:05'', demo_entry2 ''0:01:20''])"
  by (simp add: enh_apply_def)

section \<open>Times that do not parse\<close>

lemma dropWhile_subset: "set (dropWhile p xs) \<subseteq> set xs"
  by (induction xs) auto

lemma takeWhile_subset: "set (takeWhile p xs) \<subseteq> set xs"
  by (induction xs) auto

lemma tl_subset: "set (tl xs) \<subseteq> set xs"
  by (cases xs) auto

lemma strip_with_subset: "set (strip_with p s) \<subseteq> set s"
proof -
  have "set (strip_with p s) = set (dropWhile p (rev (dropWhile p s)))"
    by (simp add: strip_with_def)
  also have "\<dots> \<subseteq> set (rev (dropWhile p s))" by (rule dropWhile_subset)
  also have "\<dots> = set (dropWhile p s)" by simp
  also have "\<dots> \<subseteq> set s" by (rule dropWhile_subset)
  finally show ?thesis .
qed

lemma fix_clean_subset: "set (fix_clean s) \<subseteq> set s"
proof -
  have "set (fix_clean s) \<subseteq> set (takeWhile (\<lambda>c. c \<noteq> CHR ''('') (py_strip s))"
    unfolding fix_clean_def py_strip_def by (rule strip_with_subset)
  also have "\<dots> \<subseteq> set (py_strip s)" by (rule takeWhile_subset)
  also have "\<dots> \<subseteq> set s" unfolding py_strip_def by (rule strip_with_subset)
  finally show ?thesis .
qed

lemma dropWhile_head_mem: "dropWhile p r = c # r' \<Longrightarrow> c \<in> set r"
proof -
  assume "dropWhile p r = c # r'"
  then have "c \<in> set (dropWhile p r)" by simp
  then show ?thesis by (rule set_dropWhileD)
qed

lemma mmss_take_no_colon: "CHR '':'' \<notin> set r \<Longrightarrow> mmss_take r = None"
  by (auto simp: mmss_take_def Let_def split: list.splits option.splits dest: dropWhile_head_mem)

lemma time_core_no_colon: "CHR '':'' \<notin> set s \<Longrightarrow> time_core s = None"
  by (auto simp: time_core_def Let_def mmss_take_no_colon split: list.splits option.splits
      dest: dropWhile_head_mem)

lemma DURATION_CLEAN_RE_no_colon: "CHR '':'' \<notin> set s \<Longrightarrow> DURATION_CLEAN_RE s = None"
  by (simp add: DURATION_CLEAN_RE_def time_core_no_colon)

lemma fix_normalize_no_colon:
  assumes "CHR '':'' \<notin> set s"
  shows "fix_normalize_time s = (s, False)"
proof -
  from assms fix_clean_subset [of s] have c: "CHR '':'' \<notin> set (fix_clean s)" by blast
  then show ?thesis
    by (simp add: fix_normalize_time_def Let_def DURATION_CLEAN_RE_no_colon split_on_notin)
qed

lemma fix_to_seconds_no_colon: "CHR '':'' \<notin> set s \<Longrightarrow> fix_to_seconds s = None"
  by (simp add: fix_to_seconds_def fix_normalize_no_colon split_on_notin)

lemma fix_to_seconds_rendered:
  "fst (fix_normalize_time s) = fmt_hms h m sec \<Longrightarrow> fix_to_seconds s = Some (h * 3600 + m * 60 + sec)"
  by (simp add: fix_to_seconds_def split_fmt_hms py_int_py_str py_int_fmt02)

lemma fix_normalize_cases:
  "fix_normalize_time s = (s, False) \<or> (\<exists>h m sec. fst (fix_normalize_time s) = fmt_hms h m sec)"
proof (cases "DURATION_CLEAN_RE (fix_clean s)")
  case (Some g)
  obtain g1 g2 g3 where g: "g = (g1, g2, g3)" by (cases g) auto
  from Some g have "\<exists>h m sec. fst (fix_normalize_time s) = fmt_hms h m sec"
    by (auto simp add: fix_normalize_time_def Let_def)
  then show ?thesis by blast
next
  case None
  show ?thesis
  proof (cases "\<exists>p0 p1 mi se. split_on CHR '':'' (fix_clean s) = [p0, p1] \<and> py_int p0 = Some mi \<and> py_int p1 = Some se")
    case True
    then obtain p0 p1 mi se where p: "split_on CHR '':'' (fix_clean s) = [p0, p1]"
      "py_int p0 = Some mi" "py_int p1 = Some se" by blast
    with None have "fst (fix_normalize_time s) = fmt_hms (mi div 60) (mi mod 60) se"
      by (simp add: fix_normalize_time_def Let_def)
    then show ?thesis by blast
  next
    case False
    with None have "fix_normalize_time s = (s, False)"
      by (auto simp: fix_normalize_time_def Let_def split: list.splits option.splits)
    then show ?thesis by simp
  qed
qed

lemma fix_unparsed_unchanged:
  assumes "fix_to_seconds s = None"
  shows "fix_normalize_time s = (s, False)"
proof -
  from fix_normalize_cases [of s] show ?thesis
  proof
    assume "fix_normalize_time s = (s, False)"
    then show ?thesis .
  next
    assume "\<exists>h m sec. fst (fix_normalize_time s) = fmt_hms h m sec"
    then obtain h m sec where "fst (fix_normalize_time s) = fmt_hms h m sec" by blast
    from fix_to_seconds_rendered [OF this] assms show ?thesis by simp
  qed
qed

lemma paren_match_subset:
  assumes "paren_match s = Some r"
  shows "set r \<subseteq> set s"
proof -
  from assms obtain c r0 where d: "dropWhile is_space s = c # r0"
    by (auto simp: paren_match_def split: list.splits)
  from assms d have r: "r = tl (dropWhile (\<lambda>x. x \<noteq> CHR '')'') r0)"
    by (auto simp: paren_match_def split: if_splits)
  have "set r \<subseteq> set (dropWhile (\<lambda>x. x \<noteq> CHR '')'') r0)"
    unfolding r by (rule tl_subset)
  also have "\<dots> \<subseteq> set r0" by (rule dropWhile_subset)
  also have "\<dots> \<subseteq> set (c # r0)" by auto
  also have "set (c # r0) \<subseteq> set s" unfolding d [symmetric] by (rule dropWhile_subset)
  finally show ?thesis .
qed

lemma sub_parens_subset: "set (sub_parens s) \<subseteq> set s"
proof (induction s rule: sub_parens.induct)
  case 1
  show ?case by simp
next
  case (2 c cs)
  show ?case
  proof (cases "paren_match (c # cs)")
    case None
    with 2 show ?thesis by auto
  next
    case (Some rest)
    with 2 have "set (sub_parens rest) \<subseteq> set rest" by simp
    with paren_match_subset [OF Some] Some show ?thesis by auto
  qed
qed

lemma enh_normalize_no_colon:
  assumes "CHR '':'' \<notin> set s"
  shows "enh_normalize_time s = Inr s"
proof -
  have "set (sub_parens (py_strip s)) \<subseteq> set s"
    using sub_parens_subset [of "py_strip s"] strip_with_subset [of is_space s]
    by (auto simp: py_strip_def)
  with assms have "CHR '':'' \<notin> set (sub_parens (py_strip s))" by blast
  then show ?thesis by (simp add: enh_normalize_time_def Let_def split_on_notin)
qed

lemma enh_seconds_no_colon: "CHR '':'' \<notin> set s \<Longrightarrow> enh_time_to_seconds s = Inr 0"
  by (simp add: enh_time_to_seconds_def enh_normalize_no_colon split_on_notin)

lemma set_map_filter_conv: "set (List.map_filter g xs) = {y. \<exists>x \<in> set xs. g x = Some y}"
  by (induction xs) (auto split: option.splits)

lemma zip_upt_index:
  "(i, x) \<in> set (zip [0 ..< length xs] xs) \<Longrightarrow> i < length xs \<and> x = xs ! i"
  by (auto simp: in_set_zip)

lemma times_with_index_members:
  assumes "p \<in> set (times_with_index tss)"
  shows "fix_to_seconds (ts_time (snd (snd p))) = Some (fst p)
         \<and> fst (snd p) < length tss \<and> snd (snd p) = tss ! fst (snd p)"
proof -
  from assms obtain i ts where m: "(i, ts) \<in> set (zip [0 ..< length tss] tss)"
    and e: "map_option (\<lambda>time_s. (time_s, i, ts)) (fix_to_seconds (ts_time ts)) = Some p"
    by (auto simp: times_with_index_def set_map_filter_conv)
  from e obtain sec where s: "fix_to_seconds (ts_time ts) = Some sec" "p = (sec, i, ts)" by auto
  with zip_upt_index [OF m] show ?thesis by simp
qed

lemma find_dense_indices:
  "set (fst (find_dense rm xs)) \<subseteq> set rm \<union> (\<lambda>p. fst (snd p)) ` set xs"
proof (induction rm xs rule: find_dense.induct)
  case (1 to_remove prev_s prev_idx prev_ts curr_s curr_idx curr_ts rest)
  show ?case
  proof (cases "prev_idx \<notin> set to_remove \<and> curr_s - prev_s < MIN_SEP_S")
    case True
    define victim where
      "victim = (if length (get_description curr_ts) > length (get_description prev_ts)
                 then prev_idx else curr_idx)"
    from 1(1) [OF True victim_def]
    have ih: "set (fst (find_dense (victim # to_remove) ((curr_s, curr_idx, curr_ts) # rest)))
               \<subseteq> set (victim # to_remove) \<union> (\<lambda>p. fst (snd p)) ` set ((curr_s, curr_idx, curr_ts) # rest)" .
    have v: "victim = prev_idx \<or> victim = curr_idx" by (simp add: victim_def)
    have "fst (find_dense to_remove ((prev_s, prev_idx, prev_ts) # (curr_s, curr_idx, curr_ts) # rest))
            = fst (find_dense (victim # to_remove) ((curr_s, curr_idx, curr_ts) # rest))"
      using True by (simp add: victim_def Let_def split: prod.splits)
    with ih v show ?thesis by auto
  next
    case False
    from 1(2) [OF False]
    have ih: "set (fst (find_dense to_remove ((curr_s, curr_idx, curr_ts) # rest)))
               \<subseteq> set to_remove \<union> (\<lambda>p. fst (snd p)) ` set ((curr_s, curr_idx, curr_ts) # rest)" .
    have "find_dense to_remove ((prev_s, prev_idx, prev_ts) # (curr_s, curr_idx, curr_ts) # rest)
            = find_dense to_remove ((curr_s, curr_idx, curr_ts) # rest)"
      using False by auto
    with ih show ?thesis by auto
  qed
next
  case (2 to_remove p)
  show ?case by auto
next
  case (3 to_remove)
  show ?case by simp
qed


lemma dedensify_keeps_unparsed:
  assumes u: "fix_to_seconds (ts_time ts) = None" and m: "ts \<in> set tss"
  shows "ts \<in> set (fst (dedensify_step dry_run tss))"
proof (cases "length tss > 1 \<and> fst (find_dense [] (times_with_index tss)) \<noteq> [] \<and> \<not> dry_run")
  case False
  then have "fst (dedensify_step dry_run tss) = tss"
    by (auto simp: dedensify_step_def split: prod.splits)
  with m show ?thesis by simp
next
  case True
  obtain rm pairs where f: "find_dense [] (times_with_index tss) = (rm, pairs)"
    by (cases "find_dense [] (times_with_index tss)") auto
  from True f have d: "fst (dedensify_step dry_run tss)
      = map snd (filter (\<lambda>(i, ts). i \<notin> set rm) (zip [0 ..< length tss] tss))"
    by (simp add: dedensify_step_def)
  from m obtain j where j: "j < length tss" "tss ! j = ts" by (auto simp: in_set_conv_nth)
  have "j \<notin> set rm"
  proof
    assume "j \<in> set rm"
    with find_dense_indices [of "[]" "times_with_index tss"] f
    obtain p where p: "p \<in> set (times_with_index tss)" "fst (snd p) = j" by auto
    from times_with_index_members [OF p(1)] have "fix_to_seconds (ts_time (snd (snd p))) = Some (fst p)"
      and "snd (snd p) = tss ! fst (snd p)" by blast+
    with p(2) j(2) have "fix_to_seconds (ts_time ts) = Some (fst p)" by simp
    with u show False by simp
  qed
  moreover from j have "(j, ts) \<in> set (zip [0 ..< length tss] tss)"
    by (auto simp: in_set_zip intro!: exI [of _ j])
  ultimately have "(j, ts) \<in> set (filter (\<lambda>(i, ts). i \<notin> set rm) (zip [0 ..< length tss] tss))"
    by simp
  then have "ts \<in> snd ` set (filter (\<lambda>(i, ts). i \<notin> set rm) (zip [0 ..< length tss] tss))"
    by (rule image_eqI [rotated]) simp
  with d show ?thesis by simp
qed

text \<open>
  Claim C8 (amended). In \<open>fix_timestamps.py\<close>, whenever \<open>to_seconds\<close> reports a failure
  for the time of an entry, \<open>normalize_time\<close> returns the string unchanged with the change
  flag false, the normalisation step of \<open>process_lesson\<close> leaves the entry as it is and
  logs nothing, and the de-densification keeps the entry; every entry that takes part in
  the de-densification has the seconds value that \<open>to_seconds\<close> gives for its time. A
  time string without a colon is such a string. In \<open>fix_timestamps_enhanced.py\<close> a time
  string without a colon is returned unchanged by \<open>normalize_time\<close>, and \<open>time_to_seconds\<close>
  gives the value 0 for it, which is the value the repair pairs the entry with.
\<close>

theorem unparsable_times:
  "(fix_to_seconds (ts_time ts) = None \<longrightarrow>
      fix_normalize_time (ts_time ts) = (ts_time ts, False)
      \<and> normalize_entry dry_run ts = (ts, [])
      \<and> (ts \<in> set tss \<longrightarrow> ts \<in> set (fst (dedensify_step dry_run tss))))
   \<and> (\<forall>p \<in> set (times_with_index tss). fix_to_seconds (ts_time (snd (snd p))) = Some (fst p))
   \<and> (CHR '':'' \<notin> set (ts_time ts) \<longrightarrow>
        fix_to_seconds (ts_time ts) = None
        \<and> enh_normalize_time (ts_time ts) = Inr (ts_time ts)
        \<and> enh_time_to_seconds (ts_time ts) = Inr 0
        \<and> enh_normalize_times [ts] = Inr ([ts], [])
        \<and> with_seconds [ts] = Inr [(0, ts)])"
proof (intro conjI impI ballI)
  assume u: "fix_to_seconds (ts_time ts) = None"
  from fix_unparsed_unchanged [OF u]
  show n: "fix_normalize_time (ts_time ts) = (ts_time ts, False)" .
  from n show "normalize_entry dry_run ts = (ts, [])" by (simp add: normalize_entry_def)
next
  assume "fix_to_seconds (ts_time ts) = None" "ts \<in> set tss"
  then show "ts \<in> set (fst (dedensify_step dry_run tss))" by (rule dedensify_keeps_unparsed)
next
  fix p assume "p \<in> set (times_with_index tss)"
  from times_with_index_members [OF this]
  show "fix_to_seconds (ts_time (snd (snd p))) = Some (fst p)" by (rule conjunct1)
next
  assume c: "CHR '':'' \<notin> set (ts_time ts)"
  from c show "fix_to_seconds (ts_time ts) = None" by (rule fix_to_seconds_no_colon)
  from c show "enh_normalize_time (ts_time ts) = Inr (ts_time ts)" by (rule enh_normalize_no_colon)
  from c show "enh_time_to_seconds (ts_time ts) = Inr 0" by (rule enh_seconds_no_colon)
  from c show "enh_normalize_times [ts] = Inr ([ts], [])" by (simp add: enh_normalize_no_colon)
  from c show "with_seconds [ts] = Inr [(0, ts)]" by (simp add: enh_seconds_no_colon)
qed

theorem unparsable_times_witness:
  "fix_to_seconds ''abc'' = None
   \<and> normalize_entry False (demo_entry2 ''abc'') = (demo_entry2 ''abc'', [])
   \<and> demo_entry2 ''abc'' \<in> set (fst (dedensify_step False [demo_entry ''0:00:20'', demo_entry2 ''abc'']))
   \<and> enh_normalize_time ''abc'' = Inr ''abc''
   \<and> with_seconds [demo_entry2 ''abc''] = Inr [(0, demo_entry2 ''abc'')]"
proof -
  let ?ts = "demo_entry2 ''abc''"
  let ?tss = "[demo_entry ''0:00:20'', demo_entry2 ''abc'']"
  have t: "ts_time ?ts = ''abc''" by (simp add: demo_entry2_def)
  have c: "CHR '':'' \<notin> set (ts_time ?ts)" unfolding t by simp
  have m: "?ts \<in> set ?tss" by simp
  note u = unparsable_times [of ?ts False ?tss]
  from u have e: "CHR '':'' \<notin> set (ts_time ?ts) \<longrightarrow>
        fix_to_seconds (ts_time ?ts) = None
        \<and> enh_normalize_time (ts_time ?ts) = Inr (ts_time ?ts)
        \<and> enh_time_to_seconds (ts_time ?ts) = Inr 0
        \<and> enh_normalize_times [?ts] = Inr ([?ts], [])
        \<and> with_seconds [?ts] = Inr [(0, ?ts)]" by (elim conjE)
  from e c have e0: "fix_to_seconds (ts_time ?ts) = None
        \<and> enh_normalize_time (ts_time ?ts) = Inr (ts_time ?ts)
        \<and> enh_time_to_seconds (ts_time ?ts) = Inr 0
        \<and> enh_normalize_times [?ts] = Inr ([?ts], [])
        \<and> with_seconds [?ts] = Inr [(0, ?ts)]" by (rule mp)
  from e0 have e1: "fix_to_seconds (ts_time ?ts) = None" by (elim conjE)
  from e0 have e2: "enh_normalize_time (ts_time ?ts) = Inr (ts_time ?ts)" by (elim conjE)
  from e0 have e3: "with_seconds [?ts] = Inr [(0, ?ts)]" by (elim conjE)
  from u have f: "fix_to_seconds (ts_time ?ts) = None \<longrightarrow>
      fix_normalize_time (ts_time ?ts) = (ts_time ?ts, False)
      \<and> normalize_entry False ?ts = (?ts, [])
      \<and> (?ts \<in> set ?tss \<longrightarrow> ?ts \<in> set (fst (dedensify_step False ?tss)))" by (elim conjE)
  from f e1 have f0: "fix_normalize_time (ts_time ?ts) = (ts_time ?ts, False)
      \<and> normalize_entry False ?ts = (?ts, [])
      \<and> (?ts \<in> set ?tss \<longrightarrow> ?ts \<in> set (fst (dedensify_step False ?tss)))" by (rule mp)
  from f0 have f1: "normalize_entry False ?ts = (?ts, [])" by (elim conjE)
  from f0 have f2: "?ts \<in> set ?tss \<longrightarrow> ?ts \<in> set (fst (dedensify_step False ?tss))"
    by (elim conjE)
  from f2 m have f3: "?ts \<in> set (fst (dedensify_step False ?tss))" by (rule mp)
  from e1 e2 have "fix_to_seconds ''abc'' = None" "enh_normalize_time ''abc'' = Inr ''abc''"
    unfolding t by this+
  with f1 f3 e3 show ?thesis by (intro conjI)
qed

text \<open>
  \<open>time_to_seconds\<close> of \<open>fix_timestamps_enhanced.py\<close> gives the value 0 for a string it
  cannot read, and the repair uses it: the entry passes the range filter, is sorted to
  the front, and no change is recorded for it.
\<close>

theorem enh_unparsable_gets_zero:
  "enh_time_to_seconds ''abc'' = Inr 0
   \<and> fix_lesson_timestamps [] (demo_lesson ''0:01:20'' [demo_entry ''0:00:20'', demo_entry2 ''abc''])
     = Inr \<lparr>er_lesson_id = ''w1-l1'',
            er_updated_timestamps = [demo_entry2 ''abc'', demo_entry ''0:00:20''],
            er_changes_summary = []\<rparr>"
  by code_simp

section \<open>Dense pairs\<close>












end
